theory Spec2Isabelle
  imports Complex_Main "HOL-Library.Monad_Syntax"
begin

section \<open>Raster images\<close>

text \<open>
  An RGBA sample is a tuple \<open>(R, G, B, A)\<close> of channel values (8 bits each in Pillow).
  An image carries its size and one row-major list of samples; the sample at column
  \<open>x\<close>, row \<open>y\<close> is \<open>pixels im ! (y * width im + x)\<close>.  Pillow sizes are never negative,
  so they are naturals here and are converted to \<open>int\<close> where the program computes
  with them.
\<close>

type_synonym pixel = "nat \<times> nat \<times> nat \<times> nat"

record image =
  width :: nat
  height :: nat
  pixels :: "pixel list"

definition well_formed :: "image \<Rightarrow> bool" where
  "well_formed im \<longleftrightarrow> length (pixels im) = width im * height im"

fun alpha_of :: "pixel \<Rightarrow> nat" where
  "alpha_of (r, g, b, a) = a"

text \<open>\<^verbatim>\<open>Image.new("RGBA", size, (0,0,0,0))\<close>: the fully transparent layer.\<close>

definition new_rgba :: "nat \<Rightarrow> nat \<Rightarrow> image" where
  "new_rgba w h = \<lparr>width = w, height = h, pixels = replicate (w * h) (0, 0, 0, 0)\<rparr>"

section \<open>Python floats\<close>

text \<open>
  A Python \<^verbatim>\<open>float\<close> is an IEEE 754 binary64 number: a finite double, an infinity or
  NaN.  A finite double is kept as the real number it denotes; the sign of a zero is
  dropped, since the program has no operation that tells the two zeros apart.  The doubles
  are the reals that rounding (\<open>rd\<close>, below) leaves unchanged; every operation returns
  one, and what is proved for every real argument holds for every double.
\<close>

datatype pyfloat = Finite real | PInf | NInf | NaN

text \<open>Rounding a real to the nearest integer, ties to the even one.\<close>

definition round_half_even :: "real \<Rightarrow> int" where
  "round_half_even x =
     (let f = \<lfloor>x\<rfloor>; d = x - of_int f
      in if d < 1 / 2 then f else if 1 / 2 < d then f + 1 else if even f then f else f + 1)"

text \<open>
  The binary exponent used for a real \<open>x\<close>: the largest \<open>e\<close> in \<open>-1022 .. 1023\<close> with
  \<open>2 powi e \<le> \<bar>x\<bar>\<close>, and \<open>-1022\<close> (the subnormal range) when there is none.  The search
  runs downwards from \<open>n - 1022\<close>.
\<close>

fun exponent_from :: "nat \<Rightarrow> real \<Rightarrow> int" where
  "exponent_from 0 x = - 1022"
| "exponent_from (Suc n) x =
     (if 2 powi (int (Suc n) - 1022) \<le> x then int (Suc n) - 1022 else exponent_from n x)"

definition exponent :: "real \<Rightarrow> int" where
  "exponent x = exponent_from 2045 \<bar>x\<bar>"

text \<open>The spacing of the doubles around \<open>x\<close>: the significand has 53 bits.\<close>

definition ulp :: "real \<Rightarrow> real" where
  "ulp x = 2 powi (exponent x - 52)"

text \<open>
  \<open>rd x\<close> is \<open>x\<close> rounded to the grid of spacing \<open>ulp x\<close>, ties to even; \<open>fl x\<close> is the
  double that an operation with exact result \<open>x\<close> returns, an infinity when the rounded
  value leaves the range of the format.
\<close>

definition rd :: "real \<Rightarrow> real" where
  "rd x = of_int (round_half_even (x / ulp x)) * ulp x"

definition fl :: "real \<Rightarrow> pyfloat" where
  "fl x = (if 2 powi 1024 \<le> rd x then PInf
           else if rd x \<le> - (2 powi 1024) then NInf
           else Finite (rd x))"

text \<open>The sign of a float as \<open>-1\<close>, \<open>0\<close> or \<open>1\<close> (\<open>0\<close> for NaN).\<close>

fun sign_of :: "pyfloat \<Rightarrow> real" where
  "sign_of (Finite a) = sgn a"
| "sign_of PInf = 1"
| "sign_of NInf = - 1"
| "sign_of NaN = 0"

definition signed_inf :: "real \<Rightarrow> pyfloat" where
  "signed_inf s = (if 0 < s then PInf else NInf)"

text \<open>
  \<^verbatim>\<open>x * y\<close> on floats: NaN propagates, an infinity times zero is NaN, and an overflow
  gives an infinity without raising.
\<close>

fun fmul :: "pyfloat \<Rightarrow> pyfloat \<Rightarrow> pyfloat" where
  "fmul (Finite a) (Finite b) = fl (a * b)"
| "fmul NaN y = NaN"
| "fmul x NaN = NaN"
| "fmul x y = (if sign_of x * sign_of y = 0 then NaN else signed_inf (sign_of x * sign_of y))"

text \<open>
  Arithmetic that can raise returns an option: \<open>None\<close> is a raised \<^verbatim>\<open>ZeroDivisionError\<close>,
  \<^verbatim>\<open>OverflowError\<close> or \<^verbatim>\<open>ValueError\<close>.  Inside the \<^verbatim>\<open>try\<close> block all three end in the
  handler of line 162.

  \<^verbatim>\<open>x / y\<close> on floats raises when \<open>y\<close> is zero.
\<close>

fun fdiv :: "pyfloat \<Rightarrow> pyfloat \<Rightarrow> pyfloat option" where
  "fdiv x (Finite b) =
     (if b = 0 then None
      else case x of
             Finite a \<Rightarrow> Some (fl (a / b))
           | NaN \<Rightarrow> Some NaN
           | _ \<Rightarrow> Some (signed_inf (sign_of x * b)))"
| "fdiv x NaN = Some NaN"
| "fdiv (Finite a) y = Some (Finite 0)"
| "fdiv x y = Some NaN"

text \<open>\<^verbatim>\<open>math.sqrt\<close>: correctly rounded, \<^verbatim>\<open>ValueError\<close> on a negative argument.\<close>

fun fsqrt :: "pyfloat \<Rightarrow> pyfloat option" where
  "fsqrt (Finite a) = (if a < 0 then None else Some (fl (sqrt a)))"
| "fsqrt PInf = Some PInf"
| "fsqrt NInf = None"
| "fsqrt NaN = Some NaN"

text \<open>
  The conversion of an \<^verbatim>\<open>int\<close> operand to \<^verbatim>\<open>float\<close>: the nearest double, and
  \<^verbatim>\<open>OverflowError\<close> when the integer is too large.
\<close>

definition float_of_int :: "int \<Rightarrow> pyfloat option" where
  "float_of_int n = (case fl (of_int n) of Finite a \<Rightarrow> Some (Finite a) | _ \<Rightarrow> None)"

text \<open>
  \<^verbatim>\<open>int(x)\<close> on a float truncates towards zero; it raises \<^verbatim>\<open>ValueError\<close> on NaN and
  \<^verbatim>\<open>OverflowError\<close> on an infinity.
\<close>

fun py_int :: "pyfloat \<Rightarrow> int option" where
  "py_int (Finite a) = Some (if 0 \<le> a then \<lfloor>a\<rfloor> else \<lceil>a\<rceil>)"
| "py_int x = None"

text \<open>\<^verbatim>\<open>x < y\<close> and \<^verbatim>\<open>x <= y\<close>: every comparison with NaN is false.\<close>

fun fless :: "pyfloat \<Rightarrow> pyfloat \<Rightarrow> bool" where
  "fless (Finite a) (Finite b) \<longleftrightarrow> a < b"
| "fless NaN y \<longleftrightarrow> False"
| "fless x NaN \<longleftrightarrow> False"
| "fless x NInf \<longleftrightarrow> False"
| "fless PInf y \<longleftrightarrow> False"
| "fless x y \<longleftrightarrow> True"

definition fle :: "pyfloat \<Rightarrow> pyfloat \<Rightarrow> bool" where
  "fle x y \<longleftrightarrow> fless x y \<or> (x = y \<and> x \<noteq> NaN)"

text \<open>The mixed operations \<^verbatim>\<open>n * x\<close> and \<^verbatim>\<open>x / n\<close> of an \<^verbatim>\<open>int\<close> \<open>n\<close> and a float \<open>x\<close>.\<close>

definition int_mul :: "int \<Rightarrow> pyfloat \<Rightarrow> pyfloat option" where
  "int_mul n x = do { f \<leftarrow> float_of_int n; Some (fmul f x) }"

definition div_int :: "pyfloat \<Rightarrow> int \<Rightarrow> pyfloat option" where
  "div_int x n = do { f \<leftarrow> float_of_int n; fdiv x f }"

section \<open>Scale factor and new size (lines 80-98)\<close>

text \<open>
  Lines 80-89.  \<^verbatim>\<open>width*proportion/watermark_width\<close> multiplies first and divides the
  rounded product; under AREA the two integer products are exact and only then converted.
\<close>

definition scale_factor ::
  "string \<Rightarrow> nat \<Rightarrow> nat \<Rightarrow> nat \<Rightarrow> nat \<Rightarrow> pyfloat \<Rightarrow> pyfloat option" where
  "scale_factor type_of_rescaling w h watermark_width watermark_height proportion =
     (if type_of_rescaling = ''LINEAR''
      then do { a \<leftarrow> int_mul (int w) proportion; div_int a (int watermark_width) }
      else if type_of_rescaling = ''AREA''
      then do { a \<leftarrow> int_mul (int h * int w) proportion;
                q \<leftarrow> div_int a (int watermark_height * int watermark_width);
                fsqrt q }
      else Some (Finite 1))"

text \<open>Line 91.\<close>

definition new_size :: "nat \<Rightarrow> nat \<Rightarrow> pyfloat \<Rightarrow> (int \<times> int) option" where
  "new_size watermark_width watermark_height s =
     do { a \<leftarrow> int_mul (int watermark_width) s; x \<leftarrow> py_int a;
          b \<leftarrow> int_mul (int watermark_height) s; y \<leftarrow> py_int b;
          Some (x, y) }"

text \<open>
  \<^verbatim>\<open>Image.resize(new_size, LANCZOS)\<close> returns an image of exactly the requested size.
  The resampling filter itself belongs to Pillow; it is the parameter \<open>rs\<close>, which gives
  the sample at each row-major index of the target.
\<close>

type_synonym resampler = "image \<Rightarrow> nat \<times> nat \<Rightarrow> nat \<Rightarrow> pixel"

definition resize :: "resampler \<Rightarrow> image \<Rightarrow> nat \<times> nat \<Rightarrow> image" where
  "resize rs im sz =
     \<lparr>width = fst sz, height = snd sz, pixels = map (rs im sz) [0..<fst sz * snd sz]\<rparr>"

text \<open>Lines 93-98: resize only when both new dimensions are positive.\<close>

definition rescale :: "resampler \<Rightarrow> image \<Rightarrow> int \<times> int \<Rightarrow> image" where
  "rescale rs watermark_img ns =
     (if fst ns > 0 \<and> snd ns > 0 then resize rs watermark_img (nat (fst ns), nat (snd ns))
      else watermark_img)"

section \<open>Opacity (lines 100-108)\<close>

text \<open>
  \<^verbatim>\<open>alpha.point(lambda i: int(i * opacity))\<close> followed by \<^verbatim>\<open>putalpha\<close>.  Pillow calls the
  lambda once for each of the 256 values of a byte, keeps the results as a table of bytes
  (an entry outside \<open>0 .. 255\<close> is clipped) and maps every alpha sample through the table; the
  colour channels are untouched.  An alpha sample is a byte, so it indexes the table within
  its length.
\<close>

definition clip8 :: "int \<Rightarrow> nat" where
  "clip8 v = nat (min 255 (max 0 v))"

definition alpha_table :: "pyfloat \<Rightarrow> nat list option" where
  "alpha_table opacity =
     those (map (\<lambda>i. do { a \<leftarrow> int_mul (int i) opacity; v \<leftarrow> py_int a; Some (clip8 v) })
              [0..<256])"

fun modulate :: "nat list \<Rightarrow> pixel \<Rightarrow> pixel" where
  "modulate table (r, g, b, a) = (r, g, b, table ! a)"

definition apply_opacity :: "pyfloat \<Rightarrow> image \<Rightarrow> image option" where
  "apply_opacity opacity watermark_img =
     (if fless opacity (Finite 1)
      then map_option (\<lambda>table. watermark_img\<lparr>pixels := map (modulate table) (pixels watermark_img)\<rparr>)
             (alpha_table opacity)
      else Some watermark_img)"

section \<open>Stamping and compositing\<close>

text \<open>
  Modelled from the spec: Pillow's \<^verbatim>\<open>Image.paste(im, box, mask=im)\<close> is not part of the
  repository.  Section 4.5 of the specification: each copy is stamped by painting the
  overlay pixel with the mark's own alpha as blend weight, combined with what the overlay
  already holds.  Weights are 8-bit (255 is opaque) and quotients are rounded down.
  Pixels of the mark that fall outside the layer are clipped, so any offset is accepted.
\<close>

definition blend :: "nat \<Rightarrow> nat \<Rightarrow> nat \<Rightarrow> nat" where
  "blend m d s = (d * (255 - m) + s * m) div 255"

fun paste_pixel :: "pixel \<Rightarrow> pixel \<Rightarrow> pixel" where
  "paste_pixel (dr, dg, db, da) (sr, sg, sb, sa) =
     (blend sa dr sr, blend sa dg sg, blend sa db sb, blend sa da sa)"

definition paste :: "image \<Rightarrow> image \<Rightarrow> int \<times> int \<Rightarrow> image" where
  "paste layer im box =
     layer\<lparr>pixels :=
       map (\<lambda>k. let i = int (k mod width layer); j = int (k div width layer);
                    x = fst box; y = snd box
                in if x \<le> i \<and> i < x + int (width im) \<and> y \<le> j \<and> j < y + int (height im)
                   then paste_pixel (pixels layer ! k)
                          (pixels im ! (nat (j - y) * width im + nat (i - x)))
                   else pixels layer ! k)
           [0..<length (pixels layer)]\<rparr>"

text \<open>
  Modelled from the spec: Pillow's \<^verbatim>\<open>Image.alpha_composite\<close> is not part of the
  repository.  Section 4.5 of the specification, per channel:
  \<open>out = overlayColor * overlayAlpha + canvasColor * (1 - overlayAlpha)\<close> and
  \<open>outAlpha = overlayAlpha + canvasAlpha * (1 - overlayAlpha)\<close>, with alpha in 0..255
  standing for 0..1 and quotients rounded down.
\<close>

fun over :: "pixel \<Rightarrow> pixel \<Rightarrow> pixel" where
  "over (cr, cg, cb, ca) (lr, lg, lb, la) =
     ((lr * la + cr * (255 - la)) div 255,
      (lg * la + cg * (255 - la)) div 255,
      (lb * la + cb * (255 - la)) div 255,
      (la * 255 + ca * (255 - la)) div 255)"

definition alpha_composite :: "image \<Rightarrow> image \<Rightarrow> image" where
  "alpha_composite original watermark_layer =
     original\<lparr>pixels := map2 over (pixels original) (pixels watermark_layer)\<rparr>"

section \<open>Placement of a single mark (lines 134-147)\<close>

text \<open>
  The \<open>position\<close> argument is either a string or a tuple.  A tuple is kept as the list
  of its components, so that tuples of the wrong length exist, as they do in Python.
\<close>

datatype position = PosStr string | PosTuple "int list"

definition positioner :: "int \<Rightarrow> int \<Rightarrow> int \<Rightarrow> int \<Rightarrow> int \<Rightarrow> position \<Rightarrow> int list" where
  "positioner w h wm_width wm_height margin0 pos =
     (let margin = (if margin0 \<ge> 0 then margin0 else 0) in
      if pos = PosStr ''UPPER_LEFT'' then [margin, margin]
      else if pos = PosStr ''UPPER_RIGHT'' then [w - wm_width - margin, margin]
      else if pos = PosStr ''LOWER_LEFT'' then [margin, h - wm_height - margin]
      else if pos = PosStr ''MIDDLE'' then [(w - wm_width) div 2, (h - wm_height) div 2]
      else (case pos of
              PosTuple xs \<Rightarrow> xs
            | PosStr s \<Rightarrow> [w - wm_width - margin, h - wm_height - margin]))"

section \<open>Tiling (lines 113-132)\<close>

text \<open>
  The two nested \<^verbatim>\<open>while\<close> loops.  Nothing in the source bounds the number of
  iterations, so the loops are partial functions: \<open>None\<close> is a run that never leaves the
  loop.  The call \<^verbatim>\<open>watermark_layer.paste(watermark_img, (x, y), mask=watermark_img)\<close> is
  the parameter \<open>stamp\<close>; the variable \<^verbatim>\<open>x\<close> of the inner loop is written \<open>x'\<close>.
\<close>

partial_function (option) tile_row ::
  "(int \<times> int \<Rightarrow> 'l \<Rightarrow> 'l) \<Rightarrow> int \<Rightarrow> int \<Rightarrow> int \<Rightarrow> int \<Rightarrow> int \<Rightarrow> int \<Rightarrow> 'l \<Rightarrow> 'l option"
where
  "tile_row stamp w x_step y row_index col_index x' layer =
     (if x' < w
      then tile_row stamp w x_step y row_index (col_index + 1) (x' + x_step)
             (if (row_index + col_index) mod 2 = 0 then stamp (x', y) layer else layer)
      else Some layer)"

partial_function (option) tile_rows ::
  "(int \<times> int \<Rightarrow> 'l \<Rightarrow> 'l) \<Rightarrow> int \<Rightarrow> int \<Rightarrow> int \<Rightarrow> int \<Rightarrow> int \<Rightarrow> int \<Rightarrow> 'l \<Rightarrow> 'l option"
where
  "tile_rows stamp w h x_step y_step row_index y layer =
     (if y < h
      then Option.bind (tile_row stamp w x_step y row_index 0 0 layer)
             (tile_rows stamp w h x_step y_step (row_index + 1) (y + y_step))
      else Some layer)"

text \<open>Lines 116-117: the steps are taken from \<open>new_size\<close>.\<close>

definition tile_steps :: "int \<times> int \<Rightarrow> int \<Rightarrow> int \<times> int" where
  "tile_steps ns tile_padding = (fst ns + tile_padding, snd ns + tile_padding)"

text \<open>The sequence of offsets at which a run of the loops stamps, in order.\<close>

definition tile_trace :: "int \<Rightarrow> int \<Rightarrow> int \<Rightarrow> int \<Rightarrow> (int \<times> int) list option" where
  "tile_trace w h x_step y_step =
     tile_rows (\<lambda>p acc. acc @ [p]) w h x_step y_step 0 0 []"

section \<open>Arguments and their validation (lines 26-61)\<close>

text \<open>
  The arguments of \<^verbatim>\<open>add_watermark\<close>.  The record is typed, so the \<^verbatim>\<open>isinstance\<close>
  tests of the source hold for every value of it and only their second halves remain.  An
  integer passed as \<open>opacity\<close> or \<open>proportion\<close> is taken as the float of the same value.
\<close>

record config =
  input_path :: string
  watermark_path :: string
  output_dir :: string
  margin :: int
  position :: position
  opacity :: pyfloat
  proportion :: pyfloat
  type_of_rescaling :: string
  mode :: string
  tile_padding :: int

text \<open>\<^verbatim>\<open>str.lower\<close> on ASCII letters, and \<^verbatim>\<open>str.endswith\<close> with a tuple of suffixes.\<close>

definition lower_char :: "char \<Rightarrow> char" where
  "lower_char c =
     (let n = (of_char c :: nat) in if 65 \<le> n \<and> n \<le> 90 then char_of (n + 32) else c)"

definition lower :: "string \<Rightarrow> string" where
  "lower s = map lower_char s"

definition endswith :: "string \<Rightarrow> string list \<Rightarrow> bool" where
  "endswith s sufs \<longleftrightarrow>
     list_ex (\<lambda>e. length e \<le> length s \<and> drop (length s - length e) s = e) sufs"

definition anchors :: "string list" where
  "anchors = [''UPPER_LEFT'', ''UPPER_RIGHT'', ''LOWER_LEFT'', ''LOWER_RIGHT'', ''MIDDLE'']"

text \<open>Lines 44-49.\<close>

fun check_position :: "position \<Rightarrow> string option" where
  "check_position (PosStr s) =
     (if s \<in> set anchors then None
      else Some ''Position must be a tuple of (x, y) coordinates'')"
| "check_position (PosTuple xs) =
     (case xs of
        [x, y] \<Rightarrow> (if \<not> x \<ge> 0 \<or> \<not> y \<ge> 0
                    then Some ''Position coordinates must be non-negative'' else None)
      | _ \<Rightarrow> Some ''Position must be a tuple of (x, y) coordinates'')"

text \<open>
  The message of the \<^verbatim>\<open>ValueError\<close> that validation raises, if any.  The comparisons of
  lines 27, 29 and 57 are comparisons of floats: all of them are false on NaN.
\<close>

definition validate :: "config \<Rightarrow> string option" where
  "validate c =
     (if fle (proportion c) (Finite 0) then Some ''Proportion must be greater than 0''
      else if fless (Finite 1) (proportion c)
        then Some ''Proportion must be less than or equal to 1''
      else if input_path c = [] \<or> watermark_path c = [] \<or> output_dir c = []
        then Some ''Image paths cannot be empty''
      else if \<not> endswith (lower (input_path c)) [''.png'', ''.jpg'', ''.jpeg'']
            \<or> \<not> endswith (lower (watermark_path c)) [''.png'', ''.jpg'', ''.jpeg'']
        then Some ''Image paths must end with .png, .jpg, or .jpeg''
      else if margin c < 0 then Some ''Margin must be a non-negative integer''
      else if check_position (position c) \<noteq> None then check_position (position c)
      else if type_of_rescaling c \<notin> set [''LINEAR'', ''AREA'']
        then Some (''Type of rescaling must be 'LINEAR' or 'AREA'' @ [CHR 0x27])
      else if mode c \<notin> set [''SINGLE'', ''TILE'']
        then Some (''Mode must be 'SINGLE' or 'TILE'' @ [CHR 0x27])
      else if \<not> (fle (Finite 0) (opacity c) \<and> fle (opacity c) (Finite 1))
        then Some ''Opacity must be a float between 0.0 and 1.0''
      else if tile_padding c < 0 then Some ''Tile padding must be a non-negative integer''
      else None)"

section \<open>The watermarking pipeline (lines 70-150)\<close>

text \<open>
  Exceptions raised inside the \<^verbatim>\<open>try\<close> block are told apart only by the handler that
  catches them.
\<close>

datatype caught = FileNotFoundError | OtherException

text \<open>
  Lines 110-147.  In SINGLE mode \<^verbatim>\<open>paste\<close> receives the tuple the positioner returns;
  Pillow takes it as an offset when it has two components.
\<close>

definition place_marks :: "config \<Rightarrow> image \<Rightarrow> image \<Rightarrow> int \<times> int \<Rightarrow> (caught + image) option" where
  "place_marks c original watermark_img ns =
     (let watermark_layer = new_rgba (width original) (height original);
          w = int (width original); h = int (height original)
      in if mode c = ''TILE''
         then map_option Inr
                (tile_rows (\<lambda>box layer. paste layer watermark_img box) w h
                   (fst (tile_steps ns (tile_padding c))) (snd (tile_steps ns (tile_padding c)))
                   0 0 watermark_layer)
         else (case positioner w h (int (width watermark_img)) (int (height watermark_img))
                      (margin c) (position c) of
                 [x, y] \<Rightarrow> Some (Inr (paste watermark_layer watermark_img (x, y)))
               | _ \<Rightarrow> Some (Inl OtherException)))"

text \<open>Lines 80-91: the size computed for the mark, unless the arithmetic raises.\<close>

definition scaled_size :: "config \<Rightarrow> image \<Rightarrow> image \<Rightarrow> (int \<times> int) option" where
  "scaled_size c original watermark_img =
     do { s \<leftarrow> scale_factor (type_of_rescaling c) (width original) (height original)
                 (width watermark_img) (height watermark_img) (proportion c);
          new_size (width watermark_img) (height watermark_img) s }"

text \<open>Lines 80-108: the mark after the resize, if any, and the opacity step.\<close>

definition prepare_mark :: "resampler \<Rightarrow> config \<Rightarrow> image \<Rightarrow> image \<Rightarrow> image option" where
  "prepare_mark rs c original watermark_img =
     do { ns \<leftarrow> scaled_size c original watermark_img;
          apply_opacity (opacity c) (rescale rs watermark_img ns) }"

text \<open>
  Lines 70-150.  An exception of the arithmetic is one of those that the second handler
  catches.
\<close>

definition render :: "resampler \<Rightarrow> config \<Rightarrow> image \<Rightarrow> image \<Rightarrow> (caught + image) option" where
  "render rs c original watermark_img =
     (if width watermark_img = 0 \<or> height watermark_img = 0 then Some (Inl OtherException)
      else
        case scaled_size c original watermark_img of
          None \<Rightarrow> Some (Inl OtherException)
        | Some ns \<Rightarrow>
            (case prepare_mark rs c original watermark_img of
               None \<Rightarrow> Some (Inl OtherException)
             | Some mark \<Rightarrow>
                 (case place_marks c original mark ns of
                    None \<Rightarrow> None
                  | Some (Inl e) \<Rightarrow> Some (Inl e)
                  | Some (Inr watermark_layer) \<Rightarrow>
                      Some (Inr (alpha_composite original watermark_layer)))))"

section \<open>Files, the console and \<^verbatim>\<open>add_watermark\<close>\<close>

text \<open>
  What the program sees of its environment.  \<open>files\<close> maps the path of a regular file to
  what decoding it gives; \<open>dirs\<close> maps the path of a directory to the paths
  \<^verbatim>\<open>iterdir\<close> lists in it; \<open>save_error\<close> tells for which paths \<^verbatim>\<open>Image.save\<close> raises, and
  what; \<open>resample\<close> is Pillow's LANCZOS filter; \<open>reread\<close> is the image that decoding a
  file saved from a given image at a given path gives back.  \<open>opened\<close> logs the paths
  handed to \<^verbatim>\<open>Image.open\<close> and \<open>console\<close> the messages printed.
\<close>

datatype content = Img image | Undecodable

datatype message =
    ErrorOpeningImages
  | UnexpectedError
  | WatermarkNotFound string
  | OutputDirectory string
  | ProcessingDirectory string
  | NoValidImage
  | NotValidImage
  | ProcessingSingleFile string
  | PathDoesNotExist string
  | ProcessFinished

record world =
  files :: "string \<rightharpoonup> content"
  dirs :: "string \<rightharpoonup> string list"
  save_error :: "string \<rightharpoonup> caught"
  resample :: resampler
  reread :: "string \<Rightarrow> image \<Rightarrow> image"
  opened :: "string list"
  console :: "message list"

text \<open>
  Only the two error reports of \<^verbatim>\<open>add_watermark\<close> and the messages of
  \<^verbatim>\<open>run_watermarker\<close> are recorded; the progress prints of \<^verbatim>\<open>add_watermark\<close> are left out.
\<close>

definition secho :: "message \<Rightarrow> world \<Rightarrow> world" where
  "secho m w = w\<lparr>console := console w @ [m]\<rparr>"

text \<open>\<^verbatim>\<open>Image.open(path).convert("RGBA")\<close>.\<close>

definition open_image :: "world \<Rightarrow> string \<Rightarrow> (caught + image) \<times> world" where
  "open_image w path =
     (let w' = w\<lparr>opened := opened w @ [path]\<rparr> in
      case files w path of
        Some (Img im) \<Rightarrow> (Inr im, w')
      | Some Undecodable \<Rightarrow> (Inl OtherException, w')
      | None \<Rightarrow> (if dirs w path \<noteq> None then (Inl OtherException, w')
                 else (Inl FileNotFoundError, w')))"

text \<open>\<^verbatim>\<open>convert('RGB')\<close> drops the alpha channel; read back, every sample is opaque.\<close>

fun drop_alpha :: "pixel \<Rightarrow> pixel" where
  "drop_alpha (r, g, b, a) = (r, g, b, 255)"

definition convert_rgb :: "image \<Rightarrow> image" where
  "convert_rgb im = im\<lparr>pixels := map drop_alpha (pixels im)\<rparr>"

definition save :: "world \<Rightarrow> string \<Rightarrow> image \<Rightarrow> (caught + unit) \<times> world" where
  "save w path im =
     (case save_error w path of
        Some e \<Rightarrow> (Inl e, w)
      | None \<Rightarrow> (Inr (), w\<lparr>files := (files w)(path \<mapsto> Img (reread w path im))\<rparr>))"

text \<open>Lines 153-158: a JPEG path gets the image converted to RGB.\<close>

definition to_save :: "string \<Rightarrow> image \<Rightarrow> image" where
  "to_save path final_image =
     (if endswith (lower path) [''.jpg'', ''.jpeg''] then convert_rgb final_image
      else final_image)"

text \<open>The body of the \<^verbatim>\<open>try\<close> block, lines 63-158.\<close>

definition try_block :: "world \<Rightarrow> config \<Rightarrow> ((caught + unit) \<times> world) option" where
  "try_block w c =
     (case open_image w (input_path c) of
        (Inl e, w1) \<Rightarrow> Some (Inl e, w1)
      | (Inr original, w1) \<Rightarrow>
          (case open_image w1 (watermark_path c) of
             (Inl e, w2) \<Rightarrow> Some (Inl e, w2)
           | (Inr watermark_img, w2) \<Rightarrow>
               (case render (resample w2) c original watermark_img of
                  None \<Rightarrow> None
                | Some (Inl e) \<Rightarrow> Some (Inl e, w2)
                | Some (Inr final_image) \<Rightarrow>
                    Some (save w2 (output_dir c) (to_save (output_dir c) final_image)))))"

text \<open>Exceptions that leave a function.\<close>

datatype exn = ValueError string | Abort | Exit | FileExistsError

datatype outcome = Raised exn | Returned

text \<open>Lines 160-163: both handlers print and fall through to the end of the function.\<close>

fun handlers :: "(caught + unit) \<times> world \<Rightarrow> outcome \<times> world" where
  "handlers (Inl FileNotFoundError, w) = (Returned, secho ErrorOpeningImages w)"
| "handlers (Inl OtherException, w) = (Returned, secho UnexpectedError w)"
| "handlers (Inr u, w) = (Returned, w)"

text \<open>\<open>None\<close> is a call that never returns.\<close>

definition add_watermark :: "world \<Rightarrow> config \<Rightarrow> (outcome \<times> world) option" where
  "add_watermark w c =
     (case validate c of
        Some msg \<Rightarrow> Some (Raised (ValueError msg), w)
      | None \<Rightarrow> map_option handlers (try_block w c))"

section \<open>The command \<^verbatim>\<open>run_watermarker\<close> (lines 171-246)\<close>

text \<open>\<^verbatim>\<open>Path.name\<close>, \<^verbatim>\<open>Path.suffix\<close>, \<^verbatim>\<open>Path.stem\<close> and \<^verbatim>\<open>/\<close> on normalised POSIX paths.\<close>

definition name_of :: "string \<Rightarrow> string" where
  "name_of p = rev (takeWhile (\<lambda>c. c \<noteq> CHR ''/'') (rev p))"

definition suffix_of :: "string \<Rightarrow> string" where
  "suffix_of p =
     (let n = name_of p; e = rev (takeWhile (\<lambda>c. c \<noteq> CHR ''.'') (rev n))
      in if CHR ''.'' \<in> set n \<and> e \<noteq> [] \<and> length e + 1 < length n then CHR ''.'' # e else [])"

definition stem_of :: "string \<Rightarrow> string" where
  "stem_of p = (let n = name_of p in take (length n - length (suffix_of p)) n)"

definition joinpath :: "string \<Rightarrow> string \<Rightarrow> string" where
  "joinpath d n = d @ ''/'' @ n"

definition valid_extensions :: "string list" where
  "valid_extensions = [''.png'', ''.jpg'', ''.jpeg'']"

text \<open>\<^verbatim>\<open>os.makedirs(output_dir, exist_ok=True)\<close>.\<close>

definition makedirs :: "world \<Rightarrow> string \<Rightarrow> exn + world" where
  "makedirs w d =
     (if files w d \<noteq> None then Inl FileExistsError
      else Inr (w\<lparr>dirs := (dirs w)(d \<mapsto> (case dirs w d of None \<Rightarrow> [] | Some es \<Rightarrow> es))\<rparr>))"

text \<open>The arguments of the command; \<open>position\<close> is a string on the command line.\<close>

record cli =
  cli_input_path :: string
  cli_watermark_path :: string
  cli_output_dir :: string
  cli_mode :: string
  cli_position :: string
  cli_proportion :: pyfloat
  cli_margin :: int
  cli_tile_padding :: int
  cli_rescaling_type :: string
  cli_opacity :: pyfloat

text \<open>The call of \<^verbatim>\<open>add_watermark\<close> for one image file (lines 205-219 and 226-240).\<close>

definition call_for :: "cli \<Rightarrow> string \<Rightarrow> config" where
  "call_for a image_file =
     \<lparr>input_path = image_file,
      watermark_path = cli_watermark_path a,
      output_dir = joinpath (cli_output_dir a) (stem_of image_file @ ''_watermarked.png''),
      margin = cli_margin a,
      position = PosStr (cli_position a),
      opacity = cli_opacity a,
      proportion = cli_proportion a,
      type_of_rescaling = cli_rescaling_type a,
      mode = cli_mode a,
      tile_padding = cli_tile_padding a\<rparr>"

text \<open>The \<^verbatim>\<open>for\<close> loop over the image files of a directory (lines 204-219).\<close>

fun process_files :: "world \<Rightarrow> cli \<Rightarrow> string list \<Rightarrow> (outcome \<times> world) option" where
  "process_files w a [] = Some (Returned, w)"
| "process_files w a (image_file # rest) =
     (case add_watermark w (call_for a image_file) of
        None \<Rightarrow> None
      | Some (Raised e, w') \<Rightarrow> Some (Raised e, w')
      | Some (Returned, w') \<Rightarrow> process_files w' a rest)"

text \<open>Line 246, reached when nothing was raised before.\<close>

fun finish :: "outcome \<times> world \<Rightarrow> outcome \<times> world" where
  "finish (Returned, w) = (Returned, secho ProcessFinished w)"
| "finish (Raised e, w) = (Raised e, w)"

definition run_watermarker :: "world \<Rightarrow> cli \<Rightarrow> (outcome \<times> world) option" where
  "run_watermarker w a =
     (if files w (cli_watermark_path a) = None
      then Some (Raised Abort, secho (WatermarkNotFound (cli_watermark_path a)) w)
      else case makedirs w (cli_output_dir a) of
        Inl e \<Rightarrow> Some (Raised e, w)
      | Inr w0 \<Rightarrow>
          (let w1 = secho (OutputDirectory (cli_output_dir a)) w0 in
           case dirs w1 (cli_input_path a) of
             Some entries \<Rightarrow>
               (let w2 = secho (ProcessingDirectory (cli_input_path a)) w1;
                    image_files = filter (\<lambda>f. lower (suffix_of f) \<in> set valid_extensions) entries
                in if image_files = [] then Some (Raised Exit, secho NoValidImage w2)
                   else map_option finish (process_files w2 a image_files))
           | None \<Rightarrow>
               if files w1 (cli_input_path a) \<noteq> None
               then (if lower (suffix_of (cli_input_path a)) \<notin> set valid_extensions
                     then Some (Raised Abort, secho NotValidImage w1)
                     else map_option finish
                            (add_watermark (secho (ProcessingSingleFile (cli_input_path a)) w1)
                               (call_for a (cli_input_path a))))
               else Some (Raised Abort, secho (PathDoesNotExist (cli_input_path a)) w1)))"

section \<open>A stand-in resampler for concrete runs\<close>

text \<open>Nearest-neighbour sampling; used only where a run is evaluated on concrete images.\<close>

definition nearest :: resampler where
  "nearest im sz k =
     pixels im ! (((k div fst sz) * height im div snd sz) * width im
                   + (k mod fst sz) * width im div fst sz)"

section \<open>Concrete images, files and calls\<close>

text \<open>
  A float literal of the program text, such as \<^verbatim>\<open>0.1\<close>, denotes the double nearest to it:
  \<open>fl (1 / 10)\<close>.
\<close>

definition tall_mark :: image where
  "tall_mark = \<lparr>width = 1, height = 3, pixels = [(1, 1, 1, 255), (2, 2, 2, 255), (3, 3, 3, 255)]\<rparr>"

definition dot_canvas :: image where
  "dot_canvas = \<lparr>width = 1, height = 1, pixels = [(9, 9, 9, 255)]\<rparr>"

definition small_world :: world where
  "small_world =
     \<lparr>files = [''in.png'' \<mapsto> Img dot_canvas, ''wm.png'' \<mapsto> Img tall_mark],
      dirs = Map.empty, save_error = Map.empty, resample = nearest,
      reread = (\<lambda>path im. im), opened = [], console = []\<rparr>"

definition lower_left_call :: config where
  "lower_left_call =
     \<lparr>input_path = ''in.png'', watermark_path = ''wm.png'', output_dir = ''out.png'',
      margin = 0, position = PosStr ''LOWER_LEFT'', opacity = Finite 1, proportion = Finite 1,
      type_of_rescaling = ''LINEAR'', mode = ''SINGLE'', tile_padding = 10\<rparr>"


definition canvas2 :: image where
  "canvas2 = \<lparr>width = 2, height = 2,
               pixels = [(1, 1, 1, 255), (2, 2, 2, 255), (3, 3, 3, 255), (4, 4, 4, 255)]\<rparr>"

definition mark3 :: image where
  "mark3 = \<lparr>width = 3, height = 3,
             pixels = [(10, 10, 10, 255), (20, 20, 20, 255), (30, 30, 30, 255),
                       (40, 40, 40, 255), (50, 50, 50, 255), (60, 60, 60, 255),
                       (70, 70, 70, 255), (80, 80, 80, 255), (90, 90, 90, 255)]\<rparr>"

definition degenerate_world :: world where
  "degenerate_world =
     \<lparr>files = [''in.png'' \<mapsto> Img canvas2, ''wm.png'' \<mapsto> Img mark3],
      dirs = Map.empty, save_error = Map.empty, resample = nearest,
      reread = (\<lambda>path im. im), opened = [], console = []\<rparr>"

definition degenerate_call :: "int \<Rightarrow> config" where
  "degenerate_call padding =
     \<lparr>input_path = ''in.png'', watermark_path = ''wm.png'', output_dir = ''out.png'',
      margin = 20, position = PosStr ''LOWER_RIGHT'', opacity = Finite 1,
      proportion = fl (1 / 10),
      type_of_rescaling = ''LINEAR'', mode = ''TILE'', tile_padding = padding\<rparr>"

definition opaque2 :: image where
  "opaque2 = \<lparr>width = 2, height = 2,
               pixels = [(200, 0, 0, 255), (0, 200, 0, 255), (0, 0, 200, 255), (7, 8, 9, 255)]\<rparr>"

definition cover_world :: world where
  "cover_world =
     \<lparr>files = [''in.png'' \<mapsto> Img canvas2, ''wm.png'' \<mapsto> Img opaque2],
      dirs = Map.empty, save_error = Map.empty, resample = nearest,
      reread = (\<lambda>path im. im), opened = [], console = []\<rparr>"

definition cover_call :: config where
  "cover_call =
     \<lparr>input_path = ''in.png'', watermark_path = ''wm.png'', output_dir = ''out.png'',
      margin = 20, position = PosTuple [0, 0], opacity = Finite 1, proportion = Finite 1,
      type_of_rescaling = ''LINEAR'', mode = ''SINGLE'', tile_padding = 10\<rparr>"


definition dot_mark :: image where
  "dot_mark = \<lparr>width = 1, height = 1, pixels = [(5, 6, 7, 255)]\<rparr>"

definition clean_batch :: world where
  "clean_batch =
     \<lparr>files = [''pics/a.png'' \<mapsto> Img dot_canvas, ''pics/b.png'' \<mapsto> Img dot_canvas,
               ''wm.png'' \<mapsto> Img dot_mark],
      dirs = [''pics'' \<mapsto> [''pics/b.png'', ''pics/a.png'']],
      save_error = Map.empty, resample = nearest,
      reread = (\<lambda>path im. im), opened = [], console = []\<rparr>"

definition corrupt_batch :: world where
  "corrupt_batch = clean_batch\<lparr>files := (files clean_batch)(''pics/b.png'' \<mapsto> Undecodable)\<rparr>"

definition batch_cli :: cli where
  "batch_cli =
     \<lparr>cli_input_path = ''pics'', cli_watermark_path = ''wm.png'', cli_output_dir = ''out'',
      cli_mode = ''SINGLE'', cli_position = ''LOWER_RIGHT'', cli_proportion = Finite 1,
      cli_margin = 0, cli_tile_padding = 0, cli_rescaling_type = ''LINEAR'',
      cli_opacity = Finite 1\<rparr>"

text \<open>A call with a given rescaling type and proportion, and calls that validation lets through.\<close>

definition sized_call :: "string \<Rightarrow> pyfloat \<Rightarrow> config" where
  "sized_call t p =
     \<lparr>input_path = ''in.png'', watermark_path = ''wm.png'', output_dir = ''out.png'',
      margin = 0, position = PosStr ''LOWER_RIGHT'', opacity = Finite 1, proportion = p,
      type_of_rescaling = t, mode = ''SINGLE'', tile_padding = 10\<rparr>"




text \<open>What a finished run printed last, and whether it left a file at a path.\<close>

definition final_message :: "(outcome \<times> world) option \<Rightarrow> message option" where
  "final_message r =
     (case r of
        None \<Rightarrow> None
      | Some (out, w) \<Rightarrow> (case rev (console w) of [] \<Rightarrow> None | m # ms \<Rightarrow> Some m))"

definition written :: "(outcome \<times> world) option \<Rightarrow> string \<Rightarrow> bool" where
  "written r path = (case r of None \<Rightarrow> False | Some (out, w) \<Rightarrow> files w path \<noteq> None)"

section \<open>The checkerboard of the specification\<close>

text \<open>
  Section 4.4 of the specification, in its words: rows \<open>r = 0, 1, 2, ...\<close> while
  \<open>r * stepY < H\<close>, columns \<open>c = 0, 1, 2, ...\<close> while \<open>c * stepX < W\<close>, and a cell
  is filled iff \<open>r + c\<close> is even.  For a positive step, \<open>cells extent step\<close> is the number
  of \<open>k \<ge> 0\<close> with \<open>k * step < extent\<close>, the ceiling of \<open>extent / step\<close>.
\<close>

definition cells :: "int \<Rightarrow> int \<Rightarrow> nat" where
  "cells extent step = nat (- ((- extent) div step))"

definition checker_row :: "int \<Rightarrow> int \<Rightarrow> int \<Rightarrow> int \<Rightarrow> (int \<times> int) list" where
  "checker_row w x_step r y =
     map (\<lambda>c. (int c * x_step, y)) (filter (\<lambda>c. even (r + int c)) [0..<cells w x_step])"

definition checkerboard :: "int \<Rightarrow> int \<Rightarrow> int \<Rightarrow> int \<Rightarrow> (int \<times> int) list" where
  "checkerboard w h x_step y_step =
     concat (map (\<lambda>r. checker_row w x_step (int r) (int r * y_step)) [0..<cells h y_step])"

section \<open>Rounding to double precision\<close>

lemma round_half_even_le: "x \<le> of_int n \<Longrightarrow> round_half_even x \<le> n"
proof -
  assume a: "x \<le> of_int n"
  show ?thesis
  proof (cases "x = of_int n")
    case True
    then show ?thesis by (simp add: round_half_even_def)
  next
    case False
    then have "x < of_int n" using a by simp
    then have "\<lfloor>x\<rfloor> < n" by (simp add: floor_less_iff)
    then show ?thesis by (simp add: round_half_even_def Let_def)
  qed
qed

lemma round_half_even_ge: "of_int n \<le> x \<Longrightarrow> n \<le> round_half_even x"
proof -
  assume "of_int n \<le> x"
  then have "n \<le> \<lfloor>x\<rfloor>" by (simp add: le_floor_iff)
  then show ?thesis by (simp add: round_half_even_def Let_def)
qed

lemma round_half_even_0 [simp]: "round_half_even 0 = 0"
  by (simp add: round_half_even_def)

lemma exponent_from_le: "2 powi (- 1022) \<le> x \<Longrightarrow> 2 powi (exponent_from n x) \<le> x"
  by (induction n) auto

lemma exponent_from_less:
  "x < 2 powi (int n - 1021) \<Longrightarrow> x < 2 powi (exponent_from n x + 1)"
proof (induction n)
  case 0
  then show ?case by simp
next
  case (Suc n)
  show ?case
  proof (cases "2 powi (int (Suc n) - 1022) \<le> x")
    case True
    then show ?thesis using Suc.prems by (simp add: algebra_simps)
  next
    case False
    then have "x < 2 powi (int n - 1021)" by (simp add: algebra_simps)
    then show ?thesis using False Suc.IH by simp
  qed
qed

lemma exponent_from_small: "x < 2 powi (- 1022) \<Longrightarrow> exponent_from n x = - 1022"
proof (induction n)
  case 0
  then show ?case by simp
next
  case (Suc n)
  have "(2::real) powi (- 1022) \<le> 2 powi (int (Suc n) - 1022)"
    by (intro power_int_increasing) simp_all
  then have "\<not> 2 powi (int (Suc n) - 1022) \<le> x" using Suc.prems by linarith
  then show ?case using Suc by simp
qed

lemma exponent_small: "\<bar>x\<bar> < 2 powi (- 1022) \<Longrightarrow> exponent x = - 1022"
  by (simp add: exponent_def exponent_from_small)

lemma exponent_lower: "2 powi (- 1022) \<le> \<bar>x\<bar> \<Longrightarrow> 2 powi (exponent x) \<le> \<bar>x\<bar>"
  unfolding exponent_def by (rule exponent_from_le)

text \<open>The exponent is the binade of \<open>x\<close> whenever \<open>x\<close> is in the normal range.\<close>

lemma exponent_eqI:
  assumes "2 powi e \<le> \<bar>x\<bar>" and "\<bar>x\<bar> < 2 powi (e + 1)" and "- 1022 \<le> e" and "e \<le> 1023"
  shows "exponent x = e"
proof -
  have "(2::real) powi (- 1022) \<le> 2 powi e"
    using assms(3) by (intro power_int_increasing) simp_all
  then have lo: "2 powi (exponent x) \<le> \<bar>x\<bar>"
    using assms(1) by (intro exponent_lower) linarith
  have "(2::real) powi (e + 1) \<le> 2 powi (int 2045 - 1021)"
    using assms(4) by (intro power_int_increasing) simp_all
  then have hi: "\<bar>x\<bar> < 2 powi (exponent x + 1)"
    unfolding exponent_def using assms(2) by (intro exponent_from_less) linarith
  have "(2::real) powi (exponent x) < 2 powi (e + 1)"
    using lo assms(2) by linarith
  then have a: "exponent x < e + 1"
    by (metis not_le power_int_increasing one_le_numeral linorder_not_less)
  have "(2::real) powi e < 2 powi (exponent x + 1)"
    using hi assms(1) by linarith
  then have b: "e < exponent x + 1"
    by (metis not_le power_int_increasing one_le_numeral linorder_not_less)
  show ?thesis using a b by simp
qed

lemma exponent_le:
  assumes "\<bar>x\<bar> \<le> 2 powi k" and "- 1022 \<le> k"
  shows "exponent x \<le> k"
proof (cases "\<bar>x\<bar> < 2 powi (- 1022)")
  case True
  then show ?thesis using assms(2) by (simp add: exponent_small)
next
  case False
  then have "2 powi (exponent x) \<le> \<bar>x\<bar>" by (intro exponent_lower) simp
  then have "(2::real) powi (exponent x) \<le> 2 powi k" using assms(1) by linarith
  then show ?thesis
    by (metis not_le power_int_strict_increasing one_less_numeral_iff semiring_norm(76)
          linorder_not_less)
qed

lemma exponent_less:
  assumes "\<bar>x\<bar> < 2 powi k" and "- 1022 < k"
  shows "exponent x < k"
proof (cases "\<bar>x\<bar> < 2 powi (- 1022)")
  case True
  then show ?thesis using assms(2) by (simp add: exponent_small)
next
  case False
  then have "2 powi (exponent x) \<le> \<bar>x\<bar>" by (intro exponent_lower) simp
  then have "(2::real) powi (exponent x) < 2 powi k" using assms(1) by linarith
  then show ?thesis
    by (metis not_le power_int_increasing one_le_numeral linorder_not_less)
qed

lemma ulp_pos: "0 < ulp x"
  by (simp add: ulp_def zero_less_power_int)

lemma rd_eval:
  assumes "2 powi e \<le> \<bar>x\<bar>" and "\<bar>x\<bar> < 2 powi (e + 1)" and "- 1022 \<le> e" and "e \<le> 1023"
  shows "rd x = of_int (round_half_even (x / 2 powi (e - 52))) * 2 powi (e - 52)"
  by (simp add: rd_def ulp_def exponent_eqI[OF assms])

lemma rd_0 [simp]: "rd 0 = 0"
  by (simp add: rd_def)

lemma rd_nonneg: "0 \<le> x \<Longrightarrow> 0 \<le> rd x"
proof -
  assume "0 \<le> x"
  then have "of_int 0 \<le> x / ulp x" using ulp_pos[of x] by simp
  then have "0 \<le> round_half_even (x / ulp x)" by (rule round_half_even_ge)
  then show ?thesis using ulp_pos[of x] by (simp add: rd_def)
qed

text \<open>Rounding does not cross a power of two.\<close>

lemma rd_le_pow2:
  assumes "0 \<le> x" and "x \<le> 2 powi k" and "- 1022 \<le> k"
  shows "rd x \<le> 2 powi k"
proof -
  have e: "exponent x \<le> k"
    using assms by (intro exponent_le) simp_all
  define m where "m = nat (k - exponent x + 52)"
  have split: "(2::real) powi k = 2 ^ m * ulp x"
  proof -
    have "(2::real) powi k = 2 powi (int m + (exponent x - 52))"
      using e by (simp add: m_def)
    also have "\<dots> = 2 powi (int m) * 2 powi (exponent x - 52)"
      by (rule power_int_add) simp
    finally show ?thesis by (simp add: ulp_def power_int_of_nat)
  qed
  have "x / ulp x \<le> 2 ^ m"
    using assms(2) ulp_pos[of x] unfolding split by (simp add: field_simps)
  then have "x / ulp x \<le> of_int (2 ^ m)" by simp
  then have "round_half_even (x / ulp x) \<le> 2 ^ m" by (rule round_half_even_le)
  then have "real_of_int (round_half_even (x / ulp x)) \<le> 2 ^ m"
    by (metis of_int_le_iff of_int_numeral of_int_power)
  then show ?thesis
    unfolding rd_def split using ulp_pos[of x] by (simp add: mult_right_mono)
qed

text \<open>Below \<open>2 ^ 53\<close> every integer is on the grid, so rounding does not cross an integer.\<close>

lemma int_on_grid:
  assumes "\<bar>x\<bar> < 2 powi 53"
  shows "\<exists>m. real_of_int n = of_int m * ulp x"
proof -
  have e: "exponent x < 53" using assms by (rule exponent_less) simp
  define j where "j = nat (52 - exponent x)"
  have "(1::real) = 2 powi (int j + (exponent x - 52))"
    using e by (simp add: j_def)
  also have "\<dots> = 2 powi (int j) * 2 powi (exponent x - 52)"
    by (rule power_int_add) simp
  finally have "(1::real) = 2 ^ j * ulp x" by (simp add: ulp_def power_int_of_nat)
  then have "real_of_int n = of_int (n * 2 ^ j) * ulp x" by simp
  then show ?thesis by blast
qed

lemma rd_le_int:
  assumes "x \<le> of_int n" and "\<bar>x\<bar> < 2 powi 53"
  shows "rd x \<le> of_int n"
proof -
  obtain m where m: "real_of_int n = of_int m * ulp x"
    using int_on_grid[OF assms(2)] by blast
  have "x / ulp x \<le> of_int m"
    using assms(1) ulp_pos[of x] unfolding m by (simp add: field_simps)
  then have "round_half_even (x / ulp x) \<le> m" by (rule round_half_even_le)
  then have "real_of_int (round_half_even (x / ulp x)) \<le> of_int m" by simp
  then show ?thesis
    unfolding rd_def m using ulp_pos[of x] by (simp add: mult_right_mono)
qed

lemma rd_ge_int:
  assumes "of_int n \<le> x" and "\<bar>x\<bar> < 2 powi 53"
  shows "of_int n \<le> rd x"
proof -
  obtain m where m: "real_of_int n = of_int m * ulp x"
    using int_on_grid[OF assms(2)] by blast
  have "of_int m \<le> x / ulp x"
    using assms(1) ulp_pos[of x] unfolding m by (simp add: field_simps)
  then have "m \<le> round_half_even (x / ulp x)" by (rule round_half_even_ge)
  then have "real_of_int m \<le> of_int (round_half_even (x / ulp x))" by simp
  then show ?thesis
    unfolding rd_def m using ulp_pos[of x] by (simp add: mult_right_mono)
qed

lemma rd_of_nat: "n < 2 ^ 53 \<Longrightarrow> rd (real n) = real n"
proof -
  assume "n < 2 ^ 53"
  then have "real n < 2 ^ 53"
    by (metis of_nat_less_iff of_nat_numeral of_nat_power)
  then have "\<bar>real n\<bar> < 2 powi 53" by simp
  then show ?thesis
    using rd_le_int[of "real n" "int n"] rd_ge_int[of "int n" "real n"] by simp
qed

lemma rd_1: "rd 1 = 1"
  using rd_of_nat[of 1] by simp

lemma rd_numeral: "numeral k < (2 :: nat) ^ 53 \<Longrightarrow> rd (numeral k) = numeral k"
  using rd_of_nat[of "numeral k"] by simp

lemma fl_finite:
  assumes "0 \<le> x" and "x \<le> 2 powi k" and "- 1022 \<le> k" and "k \<le> 1023"
  shows "fl x = Finite (rd x)"
proof -
  have "rd x \<le> 2 powi k" using assms(1-3) by (rule rd_le_pow2)
  moreover have "(2::real) powi k < 2 powi 1024"
    using assms(4) by (intro power_int_strict_increasing) simp_all
  moreover have "0 \<le> rd x" using assms(1) by (rule rd_nonneg)
  moreover have "(0::real) < 2 powi 1024" by (simp add: zero_less_power_int)
  ultimately show ?thesis by (simp add: fl_def)
qed

lemma fl_of_nat: "n < 2 ^ 53 \<Longrightarrow> fl (real n) = Finite (real n)"
proof -
  assume a: "n < 2 ^ 53"
  then have "real n < 2 ^ 53"
    by (metis of_nat_less_iff of_nat_numeral of_nat_power)
  then have "real n \<le> 2 powi 53" by simp
  then have "fl (real n) = Finite (rd (real n))"
    by (intro fl_finite[where k = 53]) simp_all
  then show ?thesis by (simp add: rd_of_nat[OF a])
qed

lemma float_of_nat: "n < 2 ^ 53 \<Longrightarrow> float_of_int (int n) = Some (Finite (real n))"
  by (simp add: float_of_int_def fl_of_nat)


lemma int_mul_nat: "n < 2 ^ 53 \<Longrightarrow> int_mul (int n) (Finite x) = Some (fl (real n * x))"
  by (simp add: int_mul_def float_of_nat)

lemma div_nat:
  "0 < n \<Longrightarrow> n < 2 ^ 53 \<Longrightarrow> div_int (Finite x) (int n) = Some (fl (x / real n))"
  by (simp add: div_int_def float_of_nat)

text \<open>Particular roundings, each in the binade of its argument.\<close>

lemma rd_tenth: "rd (1 / 10) = 3602879701896397 / 36028797018963968"
proof -
  have "rd (1 / 10) = of_int (round_half_even ((1 / 10) / 2 powi (- 4 - 52))) * 2 powi (- 4 - 52)"
    by (rule rd_eval) simp_all
  also have "\<dots> = 3602879701896397 / 36028797018963968"
    by (simp add: round_half_even_def)
  finally show ?thesis .
qed

lemma rd_third: "rd (1 / 3) = 6004799503160661 / 18014398509481984"
proof -
  have "rd (1 / 3) = of_int (round_half_even ((1 / 3) / 2 powi (- 2 - 52))) * 2 powi (- 2 - 52)"
    by (rule rd_eval) simp_all
  also have "\<dots> = 6004799503160661 / 18014398509481984"
    by (simp add: round_half_even_def)
  finally show ?thesis .
qed

lemma rd_three_thirds: "rd (18014398509481983 / 18014398509481984) = 1"
proof -
  have "rd (18014398509481983 / 18014398509481984) = of_int (round_half_even ((18014398509481983 / 18014398509481984) / 2 powi (- 1 - 52))) * 2 powi (- 1 - 52)"
    by (rule rd_eval) simp_all
  also have "\<dots> = 1"
    by (simp add: round_half_even_def)
  finally show ?thesis .
qed

lemma rd_13_23: "rd (13 / 23) = 5091025665723169 / 9007199254740992"
proof -
  have "rd (13 / 23) = of_int (round_half_even ((13 / 23) / 2 powi (- 1 - 52))) * 2 powi (- 1 - 52)"
    by (rule rd_eval) simp_all
  also have "\<dots> = 5091025665723169 / 9007199254740992"
    by (simp add: round_half_even_def)
  finally show ?thesis .
qed

lemma rd_23_s: "rd (117093590311632887 / 9007199254740992) = 7318349394477055 / 562949953421312"
proof -
  have "rd (117093590311632887 / 9007199254740992) = of_int (round_half_even ((117093590311632887 / 9007199254740992) / 2 powi (3 - 52))) * 2 powi (3 - 52)"
    by (rule rd_eval) simp_all
  also have "\<dots> = 7318349394477055 / 562949953421312"
    by (simp add: round_half_even_def)
  finally show ?thesis .
qed

lemma rd_fifth: "rd (3602879701896397 / 18014398509481984) = 3602879701896397 / 18014398509481984"
proof -
  have "rd (3602879701896397 / 18014398509481984) = of_int (round_half_even ((3602879701896397 / 18014398509481984) / 2 powi (- 3 - 52))) * 2 powi (- 3 - 52)"
    by (rule rd_eval) simp_all
  also have "\<dots> = 3602879701896397 / 18014398509481984"
    by (simp add: round_half_even_def)
  finally show ?thesis .
qed

lemma rd_fifth_3: "rd (3602879701896397 / 54043195528445952) = 4803839602528529 / 72057594037927936"
proof -
  have "rd (3602879701896397 / 54043195528445952) = of_int (round_half_even ((3602879701896397 / 54043195528445952) / 2 powi (- 4 - 52))) * 2 powi (- 4 - 52)"
    by (rule rd_eval) simp_all
  also have "\<dots> = 4803839602528529 / 72057594037927936"
    by (simp add: round_half_even_def)
  finally show ?thesis .
qed

lemma rd_3_fifteenth: "rd (14411518807585587 / 72057594037927936) = 3602879701896397 / 18014398509481984"
proof -
  have "rd (14411518807585587 / 72057594037927936) = of_int (round_half_even ((14411518807585587 / 72057594037927936) / 2 powi (- 3 - 52))) * 2 powi (- 3 - 52)"
    by (rule rd_eval) simp_all
  also have "\<dots> = 3602879701896397 / 18014398509481984"
    by (simp add: round_half_even_def)
  finally show ?thesis .
qed

lemma rd_1000_tenth: "rd (450359962737049625 / 4503599627370496) = 100"
proof -
  have "rd (450359962737049625 / 4503599627370496) = of_int (round_half_even ((450359962737049625 / 4503599627370496) / 2 powi (6 - 52))) * 2 powi (6 - 52)"
    by (rule rd_eval) simp_all
  also have "\<dots> = 100"
    by (simp add: round_half_even_def)
  finally show ?thesis .
qed

lemma rd_half: "rd (1 / 2) = 1 / 2"
proof -
  have "rd (1 / 2) = of_int (round_half_even ((1 / 2) / 2 powi (- 1 - 52))) * 2 powi (- 1 - 52)"
    by (rule rd_eval) simp_all
  also have "\<dots> = 1 / 2"
    by (simp add: round_half_even_def)
  finally show ?thesis .
qed

lemma rd_255_half: "rd (255 / 2) = 255 / 2"
proof -
  have "rd (255 / 2) = of_int (round_half_even ((255 / 2) / 2 powi (6 - 52))) * 2 powi (6 - 52)"
    by (rule rd_eval) simp_all
  also have "\<dots> = 255 / 2"
    by (simp add: round_half_even_def)
  finally show ?thesis .
qed

lemma rd_129_half: "rd (129 / 2) = 129 / 2"
proof -
  have "rd (129 / 2) = of_int (round_half_even ((129 / 2) / 2 powi (6 - 52))) * 2 powi (6 - 52)"
    by (rule rd_eval) simp_all
  also have "\<dots> = 129 / 2"
    by (simp add: round_half_even_def)
  finally show ?thesis .
qed

lemma double_tenth: "fl (1 / 10) = Finite (3602879701896397 / 36028797018963968)"
  by (simp add: fl_def rd_tenth)

lemma double_third: "fl (1 / 3) = Finite (6004799503160661 / 18014398509481984)"
  by (simp add: fl_def rd_third)

section \<open>Opacity\<close>

lemma those_map_Some:
  "(\<And>x. x \<in> set xs \<Longrightarrow> f x = Some (g x)) \<Longrightarrow> those (map f xs) = Some (map g xs)"
  by (induction xs) simp_all

lemma scaled_alpha:
  assumes "0 \<le> opac" and "opac \<le> 1" and "i < 256"
  shows "do { a \<leftarrow> int_mul (int i) (Finite opac); v \<leftarrow> py_int a; Some (clip8 v) }
           = Some (nat \<lfloor>rd (real i * opac)\<rfloor>)"
proof -
  have i: "i < 2 ^ 53" using assms(3) by simp
  have lo: "0 \<le> real i * opac" using assms(1) by simp
  have "real i * opac \<le> real i * 1"
    using assms(2) by (intro mult_left_mono) simp_all
  then have hi: "real i * opac \<le> 255" using assms(3) by simp
  have f: "fl (real i * opac) = Finite (rd (real i * opac))"
    using lo hi by (intro fl_finite[where k = 8]) simp_all
  have r0: "0 \<le> rd (real i * opac)" using lo by (rule rd_nonneg)
  have "rd (real i * opac) \<le> of_int 255"
    using lo hi by (intro rd_le_int) simp_all
  then have "\<lfloor>rd (real i * opac)\<rfloor> \<le> 255" by (simp add: floor_le_iff)
  moreover have "0 \<le> \<lfloor>rd (real i * opac)\<rfloor>" using r0 by simp
  ultimately have "clip8 \<lfloor>rd (real i * opac)\<rfloor> = nat \<lfloor>rd (real i * opac)\<rfloor>"
    by (simp add: clip8_def)
  then show ?thesis
    using r0 by (simp add: int_mul_nat[OF i] f)
qed

lemma alpha_table_valid:
  assumes "0 \<le> opac" and "opac \<le> 1"
  shows "alpha_table (Finite opac) = Some (map (\<lambda>i. nat \<lfloor>rd (real i * opac)\<rfloor>) [0..<256])"
  unfolding alpha_table_def
  by (rule those_map_Some) (simp add: scaled_alpha[OF assms])

lemma apply_opacity_below_one:
  assumes "0 \<le> opac" and "opac < 1" and "\<forall>px \<in> set (pixels mark). alpha_of px \<le> 255"
  shows "apply_opacity (Finite opac) mark
           = Some (mark\<lparr>pixels := map (\<lambda>(r, g, b, a). (r, g, b, nat \<lfloor>rd (real a * opac)\<rfloor>))
                                      (pixels mark)\<rparr>)"
proof -
  have t: "alpha_table (Finite opac) = Some (map (\<lambda>i. nat \<lfloor>rd (real i * opac)\<rfloor>) [0..<256])"
    using assms(1,2) by (intro alpha_table_valid) simp_all
  have "modulate (map (\<lambda>i. nat \<lfloor>rd (real i * opac)\<rfloor>) [0..<256]) px
      = (case px of (r, g, b, a) \<Rightarrow> (r, g, b, nat \<lfloor>rd (real a * opac)\<rfloor>))"
    if "px \<in> set (pixels mark)" for px
  proof -
    obtain r g b a where px: "px = (r, g, b, a)" by (cases px)
    then have "a < 256" using assms(3) that by fastforce
    then show ?thesis by (simp add: px)
  qed
  then have "map (modulate (map (\<lambda>i. nat \<lfloor>rd (real i * opac)\<rfloor>) [0..<256])) (pixels mark)
      = map (\<lambda>(r, g, b, a). (r, g, b, nat \<lfloor>rd (real a * opac)\<rfloor>)) (pixels mark)"
    by (intro map_cong) simp_all
  then show ?thesis
    using assms(2) by (simp add: apply_opacity_def t)
qed

lemma apply_opacity_total:
  assumes "0 \<le> opac" and "opac \<le> 1"
  shows "\<exists>m. apply_opacity (Finite opac) im = Some m \<and> width m = width im \<and> height m = height im"
  by (simp add: apply_opacity_def alpha_table_valid[OF assms])

lemma apply_opacity_one [simp]: "apply_opacity (Finite 1) im = Some im"
  by (simp add: apply_opacity_def)

text \<open>
  C5, as amended.  For an opacity \<open>o\<close> in [0,1] and a mark whose alpha samples are bytes, the
  modulation succeeds, replaces every alpha sample \<open>a\<close> by the floor of the double nearest
  to \<open>a * o\<close> and leaves R, G, B and the size unchanged; with opacity 1 the mark is returned
  as it was, and with opacity 0 every alpha sample of the result is 0.
\<close>

theorem alpha_modulation:
  assumes "0 \<le> opac" and "opac \<le> 1" and "\<forall>px \<in> set (pixels mark). alpha_of px \<le> 255"
  shows "(\<exists>m. apply_opacity (Finite opac) mark = Some m
            \<and> pixels m = map (\<lambda>(r, g, b, a). (r, g, b, nat \<lfloor>rd (real a * opac)\<rfloor>)) (pixels mark)
            \<and> width m = width mark \<and> height m = height mark)
       \<and> apply_opacity (Finite 1) mark = Some mark
       \<and> (\<exists>m. apply_opacity (Finite 0) mark = Some m
            \<and> (\<forall>px \<in> set (pixels m). alpha_of px = 0))"
proof -
  have first: "\<exists>m. apply_opacity (Finite opac) mark = Some m
            \<and> pixels m = map (\<lambda>(r, g, b, a). (r, g, b, nat \<lfloor>rd (real a * opac)\<rfloor>)) (pixels mark)
            \<and> width m = width mark \<and> height m = height mark"
  proof (cases "opac < 1")
    case True
    then show ?thesis
      using apply_opacity_below_one[OF assms(1) True assms(3)] by simp
  next
    case False
    then have one: "opac = 1" using assms(2) by simp
    have "(case px of (r, g, b, a) \<Rightarrow> (r, g, b, nat \<lfloor>rd (real a * 1)\<rfloor>)) = px"
      if "px \<in> set (pixels mark)" for px
    proof -
      obtain r g b a where px: "px = (r, g, b, a)" by (cases px)
      then have "a < 2 ^ 53" using assms(3) that by fastforce
      then show ?thesis by (simp add: px rd_of_nat)
    qed
    then have "map (\<lambda>(r, g, b, a). (r, g, b, nat \<lfloor>rd (real a * 1)\<rfloor>)) (pixels mark) = pixels mark"
      by (intro map_idI) simp
    then show ?thesis by (simp add: one)
  qed
  have "apply_opacity (Finite 0) mark
      = Some (mark\<lparr>pixels := map (\<lambda>(r, g, b, a). (r, g, b, nat \<lfloor>rd (real a * 0)\<rfloor>))
                                 (pixels mark)\<rparr>)"
    using assms(3) by (intro apply_opacity_below_one) simp_all
  then have zero: "\<exists>m. apply_opacity (Finite 0) mark = Some m
      \<and> (\<forall>px \<in> set (pixels m). alpha_of px = 0)"
    by auto
  show ?thesis
    using first zero by simp
qed

text \<open>Half opacity: 255 becomes 127 and 129 becomes 64.\<close>

theorem alpha_modulation_witness:
  "apply_opacity (Finite (1 / 2))
       \<lparr>width = 2, height = 1, pixels = [(10, 20, 30, 255), (1, 2, 3, 129)]\<rparr>
     = Some \<lparr>width = 2, height = 1, pixels = [(10, 20, 30, 127), (1, 2, 3, 64)]\<rparr>
   \<and> apply_opacity (Finite 1) \<lparr>width = 2, height = 1, pixels = [(10, 20, 30, 255), (1, 2, 3, 129)]\<rparr>
       = Some \<lparr>width = 2, height = 1, pixels = [(10, 20, 30, 255), (1, 2, 3, 129)]\<rparr>
   \<and> (\<exists>m. apply_opacity (Finite 0)
              \<lparr>width = 2, height = 1, pixels = [(10, 20, 30, 255), (1, 2, 3, 129)]\<rparr> = Some m
          \<and> map alpha_of (pixels m) = [0, 0])"
proof -
  let ?mark = "\<lparr>width = 2, height = 1, pixels = [(10, 20, 30, 255), (1, 2, 3, 129)]\<rparr>"
  have bytes: "\<forall>px \<in> set (pixels ?mark). alpha_of px \<le> 255"
    by simp
  note inst = alpha_modulation[of "1 / 2" ?mark, OF _ _ bytes]
  have "\<exists>m. apply_opacity (Finite (1 / 2)) ?mark = Some m
      \<and> pixels m = map (\<lambda>(r, g, b, a). (r, g, b, nat \<lfloor>rd (real a * (1 / 2))\<rfloor>)) (pixels ?mark)
      \<and> width m = width ?mark \<and> height m = height ?mark"
    using inst by simp
  then obtain m where m: "apply_opacity (Finite (1 / 2)) ?mark = Some m"
    "pixels m = [(10, 20, 30, 127), (1, 2, 3, 64)]" "width m = 2" "height m = 1"
    by (auto simp add: rd_255_half rd_129_half)
  then have half: "apply_opacity (Finite (1 / 2)) ?mark
      = Some \<lparr>width = 2, height = 1, pixels = [(10, 20, 30, 127), (1, 2, 3, 64)]\<rparr>"
    by (cases m) simp
  have "\<exists>m. apply_opacity (Finite 0) ?mark = Some m \<and> (\<forall>px \<in> set (pixels m). alpha_of px = 0)"
    using inst by simp
  then have zero: "\<exists>m. apply_opacity (Finite 0) ?mark = Some m \<and> map alpha_of (pixels m) = [0, 0]"
    by (auto simp add: apply_opacity_def)
  show ?thesis
    using half zero by simp
qed

text \<open>
  C5 as stated fails: with the opacity \<^verbatim>\<open>1/3\<close>, the double \<open>6004799503160661 / 2 ^ 54\<close>, an
  alpha sample 3 becomes 1, because the product is rounded up to 1.0 before it is
  truncated; the floor of the exact product is 0.
\<close>

theorem alpha_product_is_rounded:
  "fl (1 / 3) = Finite (6004799503160661 / 18014398509481984)
   \<and> apply_opacity (Finite (6004799503160661 / 18014398509481984))
       \<lparr>width = 1, height = 1, pixels = [(7, 8, 9, 3)]\<rparr>
     = Some \<lparr>width = 1, height = 1, pixels = [(7, 8, 9, 1)]\<rparr>
   \<and> nat \<lfloor>real 3 * (6004799503160661 / 18014398509481984)\<rfloor> = 0"
proof -
  have "apply_opacity (Finite (6004799503160661 / 18014398509481984))
       \<lparr>width = 1, height = 1, pixels = [(7, 8, 9, 3)]\<rparr>
     = Some \<lparr>width = 1, height = 1, pixels = [(7, 8, 9, 1)]\<rparr>"
    by (subst apply_opacity_below_one) (simp_all add: rd_three_thirds)
  then show ?thesis
    by (simp add: double_third)
qed

section \<open>Scale factor and resized dimensions\<close>

lemma size_rescale:
  "0 < fst ns \<Longrightarrow> 0 < snd ns \<Longrightarrow>
     int (width (rescale rs im ns)) = fst ns \<and> int (height (rescale rs im ns)) = snd ns"
  by (simp add: rescale_def resize_def)

lemma rescale_skip: "\<not> (0 < fst ns \<and> 0 < snd ns) \<Longrightarrow> rescale rs im ns = im"
  by (auto simp add: rescale_def)

lemma size_new_rgba [simp]: "width (new_rgba m n) = m" "height (new_rgba m n) = n"
  by (simp_all add: new_rgba_def)

lemma fl_bounded:
  assumes "0 \<le> x" and "x \<le> 2 powi k" and "- 1022 \<le> k" and "k \<le> 1023"
  shows "fl x = Finite (rd x)" and "0 \<le> rd x" and "rd x \<le> 2 powi k"
  using assms by (simp_all add: fl_finite rd_nonneg rd_le_pow2)

lemma scale_factor_linear:
  assumes "0 \<le> p" and "p \<le> 1" and "w < 2 ^ 53" and "0 < mw" and "mw < 2 ^ 53"
  shows "scale_factor ''LINEAR'' w h mw mh (Finite p)
           = Some (Finite (rd (rd (real w * p) / real mw)))"
    and "0 \<le> rd (rd (real w * p) / real mw)"
    and "rd (rd (real w * p) / real mw) \<le> 2 powi 53"
proof -
  have "real w < 2 ^ 53"
    using assms(3) by (metis of_nat_less_iff of_nat_numeral of_nat_power)
  moreover have "real w * p \<le> real w * 1"
    using assms(2) by (intro mult_left_mono) simp_all
  ultimately have hi: "real w * p \<le> 2 powi 53" by simp
  have lo: "0 \<le> real w * p" using assms(1) by simp
  note a = fl_bounded[OF lo hi]
  have a': "fl (real w * p) = Finite (rd (real w * p))" "0 \<le> rd (real w * p)"
    "rd (real w * p) \<le> 2 powi 53"
    using a by simp_all
  have mw: "1 \<le> real mw" using assms(4) by simp
  have lo': "0 \<le> rd (real w * p) / real mw" using a'(2) by simp
  have "rd (real w * p) / real mw \<le> rd (real w * p) / 1"
    using mw a'(2) by (intro divide_left_mono) simp_all
  then have hi': "rd (real w * p) / real mw \<le> 2 powi 53" using a'(3) by simp
  note s = fl_bounded[OF lo' hi']
  show "0 \<le> rd (rd (real w * p) / real mw)" "rd (rd (real w * p) / real mw) \<le> 2 powi 53"
    using s by simp_all
  have "fl (rd (real w * p) / real mw) = Finite (rd (rd (real w * p) / real mw))"
    using s by simp
  then show "scale_factor ''LINEAR'' w h mw mh (Finite p)
           = Some (Finite (rd (rd (real w * p) / real mw)))"
    by (simp add: scale_factor_def int_mul_nat[OF assms(3)] a'(1) div_nat[OF assms(4,5)])
qed

lemma scale_factor_area:
  assumes "0 \<le> p" and "p \<le> 1" and "h * w < 2 ^ 53" and "0 < mh * mw" and "mh * mw < 2 ^ 53"
  shows "scale_factor ''AREA'' w h mw mh (Finite p)
           = Some (Finite (rd (sqrt (rd (rd (real (h * w) * p) / real (mh * mw))))))"
    and "0 \<le> rd (sqrt (rd (rd (real (h * w) * p) / real (mh * mw))))"
    and "rd (sqrt (rd (rd (real (h * w) * p) / real (mh * mw)))) \<le> 2 powi 53"
proof -
  let ?a = "rd (real (h * w) * p)"
  let ?q = "rd (?a / real (mh * mw))"
  have "real (h * w) < 2 ^ 53"
    using assms(3) by (metis of_nat_less_iff of_nat_numeral of_nat_power)
  moreover have "real (h * w) * p \<le> real (h * w) * 1"
    using assms(2) by (intro mult_left_mono) simp_all
  ultimately have hi: "real (h * w) * p \<le> 2 powi 53" by simp
  have lo: "0 \<le> real (h * w) * p" using assms(1) by simp
  note a = fl_bounded[OF lo hi]
  have a': "fl (real (h * w) * p) = Finite ?a" "0 \<le> ?a" "?a \<le> 2 powi 53"
    using a by simp_all
  have m: "1 \<le> real (mh * mw)" using assms(4) by (simp add: Suc_le_eq flip: of_nat_mult)
  have lo': "0 \<le> ?a / real (mh * mw)" using a'(2) by simp
  have "?a / real (mh * mw) \<le> ?a / 1"
    using m a'(2) by (intro divide_left_mono) simp_all
  then have hi': "?a / real (mh * mw) \<le> 2 powi 53" using a'(3) by simp
  note q = fl_bounded[OF lo' hi']
  have q': "fl (?a / real (mh * mw)) = Finite ?q" "0 \<le> ?q" "?q \<le> 2 powi 53"
    using q by simp_all
  have lo'': "0 \<le> sqrt ?q" using q'(2) by simp
  have "?q \<le> (2 ^ 53)\<^sup>2"
  proof -
    have "?q \<le> 2 ^ 53" using q'(3) by simp
    also have "(2::real) ^ 53 \<le> (2 ^ 53)\<^sup>2" by simp
    finally show ?thesis .
  qed
  then have "sqrt ?q \<le> sqrt ((2 ^ 53)\<^sup>2)" by (rule real_sqrt_le_mono)
  then have hi'': "sqrt ?q \<le> 2 powi 53" by simp
  note s = fl_bounded[OF lo'' hi'']
  show "0 \<le> rd (sqrt ?q)" "rd (sqrt ?q) \<le> 2 powi 53"
    using s by simp_all
  have s': "fl (sqrt ?q) = Finite (rd (sqrt ?q))" using s by simp
  have prod: "int h * int w = int (h * w)" "int mh * int mw = int (mh * mw)"
    by simp_all
  have neg: "\<not> ?q < 0" using q'(2) by simp
  show "scale_factor ''AREA'' w h mw mh (Finite p) = Some (Finite (rd (sqrt ?q)))"
    unfolding scale_factor_def prod
    by (simp add: int_mul_nat[OF assms(3)] a'(1) div_nat[OF assms(4,5)] q'(1) neg s'
          del: of_nat_mult)
qed

lemma new_size_finite:
  assumes "0 \<le> s" and "s \<le> 2 powi 53" and "mw < 2 ^ 53" and "mh < 2 ^ 53"
  shows "new_size mw mh (Finite s) = Some (\<lfloor>rd (real mw * s)\<rfloor>, \<lfloor>rd (real mh * s)\<rfloor>)"
proof -
  have b: "fl (real m * s) = Finite (rd (real m * s)) \<and> 0 \<le> rd (real m * s)"
    if "m < 2 ^ 53" for m :: nat
  proof -
    have "real m < 2 ^ 53"
      using that by (metis of_nat_less_iff of_nat_numeral of_nat_power)
    then have "real m * s \<le> 2 ^ 53 * 2 powi 53"
      using assms(1,2) by (intro mult_mono) simp_all
    then have hi: "real m * s \<le> 2 powi 106" by simp
    have lo: "0 \<le> real m * s" using assms(1) by simp
    show ?thesis using fl_bounded[OF lo hi] by simp
  qed
  show ?thesis
    using b[OF assms(3)] b[OF assms(4)]
    by (simp add: new_size_def int_mul_nat[OF assms(3)] int_mul_nat[OF assms(4)])
qed

lemma validate_proportion:
  "validate c = None \<Longrightarrow> proportion c = Finite p \<Longrightarrow> 0 < p \<and> p \<le> 1"
  by (simp add: validate_def fle_def split: if_splits)

lemma validate_opacity:
  assumes "validate c = None"
  shows "\<exists>opac. opacity c = Finite opac \<and> 0 \<le> opac \<and> opac \<le> 1"
proof -
  have "fle (Finite 0) (opacity c) \<and> fle (opacity c) (Finite 1)"
    using assms by (simp add: validate_def split: if_splits)
  then show ?thesis
    by (cases "opacity c") (auto simp add: fle_def)
qed

lemma validate_rescaling: "validate c = None \<Longrightarrow> type_of_rescaling c \<in> {''LINEAR'', ''AREA''}"
  by (simp add: validate_def split: if_splits)

text \<open>The size computed on a call that passed validation, for images of ordinary sizes.\<close>

lemma scaled_size_valid:
  assumes "validate c = None" and "proportion c = Finite p"
    and "0 < width mark" and "0 < height mark"
    and "width canvas < 2 ^ 53" and "height canvas * width canvas < 2 ^ 53"
    and "height mark * width mark < 2 ^ 53"
    and "s = (if type_of_rescaling c = ''LINEAR''
              then rd (rd (real (width canvas) * p) / real (width mark))
              else rd (sqrt (rd (rd (real (height canvas * width canvas) * p)
                                   / real (height mark * width mark)))))"
  shows "scale_factor (type_of_rescaling c) (width canvas) (height canvas)
           (width mark) (height mark) (proportion c) = Some (Finite s)"
    and "scaled_size c canvas mark
           = Some (\<lfloor>rd (real (width mark) * s)\<rfloor>, \<lfloor>rd (real (height mark) * s)\<rfloor>)"
proof -
  have p: "0 \<le> p" "p \<le> 1"
    using validate_proportion[OF assms(1,2)] by simp_all
  have "width mark \<le> height mark * width mark"
    using assms(4) by (cases "height mark") simp_all
  then have mw: "width mark < 2 ^ 53"
    using assms(7) by (rule le_less_trans)
  have "height mark \<le> height mark * width mark"
    using assms(3) by (cases "width mark") simp_all
  then have mh: "height mark < 2 ^ 53"
    using assms(7) by (rule le_less_trans)
  have pos: "0 < height mark * width mark"
    using assms(3,4) by simp
  note m = mw mh pos
  have sf: "scale_factor (type_of_rescaling c) (width canvas) (height canvas)
           (width mark) (height mark) (Finite p) = Some (Finite s) \<and> 0 \<le> s \<and> s \<le> 2 powi 53"
  proof (cases "type_of_rescaling c = ''LINEAR''")
    case True
    then show ?thesis
      using scale_factor_linear[OF p assms(5,3) m(1)] assms(8)
      by simp
  next
    case False
    then have "type_of_rescaling c = ''AREA''"
      using validate_rescaling[OF assms(1)] by simp
    then show ?thesis
      using scale_factor_area[OF p assms(6) m(3) assms(7)] assms(8) by simp
  qed
  then show "scale_factor (type_of_rescaling c) (width canvas) (height canvas)
           (width mark) (height mark) (proportion c) = Some (Finite s)"
    by (simp add: assms(2))
  show "scaled_size c canvas mark
           = Some (\<lfloor>rd (real (width mark) * s)\<rfloor>, \<lfloor>rd (real (height mark) * s)\<rfloor>)"
    using sf new_size_finite[OF _ _ m(1,2), of s] by (simp add: scaled_size_def assms(2))
qed

text \<open>
  C1, as amended.  On a call that passed validation with a proportion \<open>p\<close> that is a number,
  for a mark of positive size and sizes below \<open>2 ^ 53\<close>, the scale factor \<open>s\<close> is
  \<open>W * p / Mw\<close> under LINEAR and \<open>sqrt (H * W * p / (Mh * Mw))\<close> under AREA rescaling
  evaluated in double precision, each operation rounded to the nearest double (\<open>rd\<close>); the
  new size is \<open>(floor (rd (Mw * s)), floor (rd (Mh * s)))\<close>, and these are the dimensions of
  the mark once it has been resized.
\<close>

theorem scale_factor_and_new_size:
  assumes "validate c = None" and "proportion c = Finite p"
    and "0 < width mark" and "0 < height mark"
    and "width canvas < 2 ^ 53" and "height canvas * width canvas < 2 ^ 53"
    and "height mark * width mark < 2 ^ 53"
    and "s = (if type_of_rescaling c = ''LINEAR''
              then rd (rd (real (width canvas) * p) / real (width mark))
              else rd (sqrt (rd (rd (real (height canvas * width canvas) * p)
                                   / real (height mark * width mark)))))"
    and "ns = (\<lfloor>rd (real (width mark) * s)\<rfloor>, \<lfloor>rd (real (height mark) * s)\<rfloor>)"
  shows "0 < p \<and> p \<le> 1
       \<and> type_of_rescaling c \<in> {''LINEAR'', ''AREA''}
       \<and> scale_factor (type_of_rescaling c) (width canvas) (height canvas)
            (width mark) (height mark) (proportion c) = Some (Finite s)
       \<and> scaled_size c canvas mark = Some ns
       \<and> (\<exists>m. prepare_mark rs c canvas mark = Some m
             \<and> (0 < fst ns \<and> 0 < snd ns \<longrightarrow> int (width m) = fst ns \<and> int (height m) = snd ns))"
proof -
  note sz = scaled_size_valid[OF assms(1-8)]
  obtain opac where o: "opacity c = Finite opac" "0 \<le> opac" "opac \<le> 1"
    using validate_opacity[OF assms(1)] by blast
  obtain m where m: "apply_opacity (Finite opac) (rescale rs mark ns) = Some m"
    "width m = width (rescale rs mark ns)" "height m = height (rescale rs mark ns)"
    using apply_opacity_total[OF o(2,3)] by blast
  have sz2: "scaled_size c canvas mark = Some ns"
    using sz(2) assms(9) by simp
  have "prepare_mark rs c canvas mark = Some m"
    by (simp add: prepare_mark_def sz2 o(1) m(1))
  moreover have "0 < fst ns \<and> 0 < snd ns \<longrightarrow> int (width m) = fst ns \<and> int (height m) = snd ns"
    using size_rescale[of ns rs mark] m(2,3) by simp
  ultimately have "\<exists>m. prepare_mark rs c canvas mark = Some m
             \<and> (0 < fst ns \<and> 0 < snd ns \<longrightarrow> int (width m) = fst ns \<and> int (height m) = snd ns)"
    by blast
  then show ?thesis
    using validate_proportion[OF assms(1,2)] validate_rescaling[OF assms(1)] sz(1) sz2
    by simp
qed

lemma sized_call_valid:
  "t \<in> {''LINEAR'', ''AREA''} \<Longrightarrow> 0 < q \<Longrightarrow> q \<le> 1 \<Longrightarrow> validate (sized_call t (Finite q)) = None"
  by (auto simp add: validate_def sized_call_def fle_def endswith_def lower_def lower_char_def
        anchors_def)

text \<open>
  The examples of the specification: canvas 1000 x 500, mark 200 x 100, proportion
  \<^verbatim>\<open>0.1\<close>, LINEAR gives scale factor 0.5 and a mark of 100 x 50; under AREA, canvas
  400 x 100, mark 100 x 100 and proportion 0.25 give scale factor 1.
\<close>

theorem scale_factor_and_new_size_witness:
  "scaled_size (sized_call ''LINEAR'' (fl (1 / 10))) (new_rgba 1000 500) (new_rgba 200 100)
     = Some (100, 50)
   \<and> (\<exists>m. prepare_mark nearest (sized_call ''LINEAR'' (fl (1 / 10))) (new_rgba 1000 500)
             (new_rgba 200 100) = Some m
          \<and> int (width m) = 100 \<and> int (height m) = 50)
   \<and> scale_factor ''AREA'' 400 100 100 100 (Finite (1 / 4)) = Some (Finite 1)
   \<and> scaled_size (sized_call ''AREA'' (Finite (1 / 4))) (new_rgba 400 100) (new_rgba 100 100)
       = Some (100, 100)"
proof -
  let ?lin = "sized_call ''LINEAR'' (Finite (3602879701896397 / 36028797018963968))"
  let ?area = "sized_call ''AREA'' (Finite (1 / 4))"
  have v: "validate ?lin = None" "validate ?area = None"
    by (simp_all add: sized_call_valid)
  have p: "proportion ?lin = Finite (3602879701896397 / 36028797018963968)"
    "proportion ?area = Finite (1 / 4)"
    by (simp_all add: sized_call_def)
  have t: "type_of_rescaling ?lin = ''LINEAR''" "type_of_rescaling ?area = ''AREA''"
    by (simp_all add: sized_call_def)
  have s1: "1 / 2 = (if type_of_rescaling ?lin = ''LINEAR''
      then rd (rd (real (width (new_rgba 1000 500)) * (3602879701896397 / 36028797018963968))
                / real (width (new_rgba 200 100)))
      else rd (sqrt (rd (rd (real (height (new_rgba 1000 500) * width (new_rgba 1000 500))
                               * (3602879701896397 / 36028797018963968))
                          / real (height (new_rgba 200 100) * width (new_rgba 200 100))))))"
    by (simp add: t rd_1000_tenth rd_half)
  have n1: "(100, 50) = (\<lfloor>rd (real (width (new_rgba 200 100)) * (1 / 2))\<rfloor>,
                         \<lfloor>rd (real (height (new_rgba 200 100)) * (1 / 2))\<rfloor>)"
    by (simp add: rd_numeral)
  have s2: "1 = (if type_of_rescaling ?area = ''LINEAR''
      then rd (rd (real (width (new_rgba 400 100)) * (1 / 4))
                / real (width (new_rgba 100 100)))
      else rd (sqrt (rd (rd (real (height (new_rgba 400 100) * width (new_rgba 400 100))
                               * (1 / 4))
                          / real (height (new_rgba 100 100) * width (new_rgba 100 100))))))"
    by (simp add: t rd_numeral rd_1)
  have n2: "(100, 100) = (\<lfloor>rd (real (width (new_rgba 100 100)) * 1)\<rfloor>,
                          \<lfloor>rd (real (height (new_rgba 100 100)) * 1)\<rfloor>)"
    by (simp add: rd_numeral)
  note lin = scale_factor_and_new_size[of ?lin "3602879701896397 / 36028797018963968"
                "new_rgba 200 100" "new_rgba 1000 500" "1 / 2" "(100, 50)" nearest,
                OF v(1) p(1) _ _ _ _ _ s1 n1]
  note area = scale_factor_and_new_size[of ?area "1 / 4"
                "new_rgba 100 100" "new_rgba 400 100" 1 "(100, 100)" nearest,
                OF v(2) p(2) _ _ _ _ _ s2 n2]
  have a: "scaled_size ?lin (new_rgba 1000 500) (new_rgba 200 100) = Some (100, 50)"
    using lin by simp
  have b: "\<exists>m. prepare_mark nearest ?lin (new_rgba 1000 500) (new_rgba 200 100) = Some m
          \<and> int (width m) = 100 \<and> int (height m) = 50"
    using lin by simp
  have c: "scale_factor ''AREA'' 400 100 100 100 (Finite (1 / 4)) = Some (Finite 1)"
    using area by (simp add: t p)
  have d: "scaled_size ?area (new_rgba 400 100) (new_rgba 100 100) = Some (100, 100)"
    using area by simp
  show ?thesis
    using a b c d by (simp add: double_tenth)
qed

text \<open>
  C1 as stated fails: on a canvas 52 wide with a mark 23 x 23, proportion 0.25 and LINEAR
  rescaling, \<open>W * p / Mw\<close> is \<open>13 / 23\<close> and \<open>floor (Mw * s)\<close> is 13, but the double nearest to
  \<open>13 / 23\<close> times 23 is rounded to \<open>12.999999999999998\<close> and the new size is 12 x 12.
\<close>

theorem new_size_is_not_the_exact_floor:
  "validate (sized_call ''LINEAR'' (Finite (1 / 4))) = None
   \<and> scaled_size (sized_call ''LINEAR'' (Finite (1 / 4))) (new_rgba 52 52) (new_rgba 23 23)
       = Some (12, 12)
   \<and> (\<lfloor>real 23 * (real 52 * (1 / 4) / real 23)\<rfloor>, \<lfloor>real 23 * (real 52 * (1 / 4) / real 23)\<rfloor>)
       = (13 :: int, 13 :: int)"
proof -
  let ?c = "sized_call ''LINEAR'' (Finite (1 / 4))"
  have v: "validate ?c = None"
    by (simp add: sized_call_valid)
  have p: "proportion ?c = Finite (1 / 4)"
    by (simp add: sized_call_def)
  have s: "5091025665723169 / 9007199254740992
      = (if type_of_rescaling ?c = ''LINEAR''
      then rd (rd (real (width (new_rgba 52 52)) * (1 / 4)) / real (width (new_rgba 23 23)))
      else rd (sqrt (rd (rd (real (height (new_rgba 52 52) * width (new_rgba 52 52)) * (1 / 4))
                          / real (height (new_rgba 23 23) * width (new_rgba 23 23))))))"
    by (simp add: sized_call_def rd_numeral rd_13_23)
  have "scaled_size ?c (new_rgba 52 52) (new_rgba 23 23)
      = Some (\<lfloor>rd (real (width (new_rgba 23 23)) * (5091025665723169 / 9007199254740992))\<rfloor>,
              \<lfloor>rd (real (height (new_rgba 23 23)) * (5091025665723169 / 9007199254740992))\<rfloor>)"
    by (rule scaled_size_valid(2)[OF v p _ _ _ _ _ s]) simp_all
  then have "scaled_size ?c (new_rgba 52 52) (new_rgba 23 23) = Some (12, 12)"
    by (simp add: rd_23_s)
  then show ?thesis
    using v by simp
qed

section \<open>Single placement\<close>

lemma positioner_pair:
  "check_position p = None \<Longrightarrow> \<exists>x y. positioner w h mw mh m p = [x, y]"
  by (cases p) (auto simp add: positioner_def Let_def split: list.splits if_splits)

lemma validate_position: "validate c = None \<Longrightarrow> check_position (position c) = None"
  by (simp add: validate_def split: if_splits)

lemma place_marks_single:
  "mode c \<noteq> ''TILE'' \<Longrightarrow>
   positioner (int (width original)) (int (height original)) (int (width mark)) (int (height mark))
     (margin c) (position c) = [x, y] \<Longrightarrow>
   place_marks c original mark ns
     = Some (Inr (paste (new_rgba (width original) (height original)) mark (x, y)))"
  by (simp add: place_marks_def Let_def)

lemma add_watermark_single:
  assumes "validate c = None" and "mode c \<noteq> ''TILE''"
    and "files w (input_path c) = Some (Img original)"
    and "files w (watermark_path c) = Some (Img watermark_img)"
    and "0 < width watermark_img" and "0 < height watermark_img"
    and "save_error w (output_dir c) = None"
    and "prepare_mark (resample w) c original watermark_img = Some mark"
    and "positioner (int (width original)) (int (height original))
           (int (width mark)) (int (height mark)) (margin c) (position c) = [x, y]"
  shows "add_watermark w c =
           Some (Returned,
                 w\<lparr>opened := opened w @ [input_path c, watermark_path c],
                   files := (files w)(output_dir c \<mapsto>
                     Img (reread w (output_dir c)
                            (to_save (output_dir c)
                               (alpha_composite original
                                  (paste (new_rgba (width original) (height original)) mark (x, y))))))\<rparr>)"
proof -
  obtain ns where ns: "scaled_size c original watermark_img = Some ns"
    using assms(8) by (auto simp add: prepare_mark_def bind_eq_Some_conv)
  have r: "render (resample w) c original watermark_img
      = Some (Inr (alpha_composite original
                                  (paste (new_rgba (width original) (height original)) mark (x, y))))"
    using assms(2,5,6,8,9) by (simp add: render_def ns place_marks_single)
  show ?thesis
    using assms(1,3,4,7) r
    by (simp add: add_watermark_def try_block_def open_image_def save_def)
qed


text \<open>
  C2.  In SINGLE mode, for a margin \<open>m \<ge> 0\<close>, the positioner returns: UPPER_LEFT \<open>(m, m)\<close>;
  UPPER_RIGHT \<open>(W - Mw - m, m)\<close>; LOWER_LEFT \<open>(m, H - Mh - m)\<close>; MIDDLE
  \<open>((W - Mw) div 2, (H - Mh) div 2)\<close>; an explicit pair verbatim; LOWER_RIGHT and any other
  string \<open>(W - Mw - m, H - Mh - m)\<close>.  Whatever the sign of the offset, a valid call on
  decodable files whose mark has been prepared returns normally, having saved the canvas
  composited with the mark pasted at that offset.
\<close>

theorem single_mode_placement:
  assumes "0 \<le> m"
    and "validate c = None" and "mode c = ''SINGLE''"
    and "files w (input_path c) = Some (Img original)"
    and "files w (watermark_path c) = Some (Img watermark_img)"
    and "0 < width watermark_img" and "0 < height watermark_img"
    and "save_error w (output_dir c) = None"
    and "prepare_mark (resample w) c original watermark_img = Some mark"
  shows "positioner W H Mw Mh m (PosStr ''UPPER_LEFT'') = [m, m]
       \<and> positioner W H Mw Mh m (PosStr ''UPPER_RIGHT'') = [W - Mw - m, m]
       \<and> positioner W H Mw Mh m (PosStr ''LOWER_LEFT'') = [m, H - Mh - m]
       \<and> positioner W H Mw Mh m (PosStr ''MIDDLE'') = [(W - Mw) div 2, (H - Mh) div 2]
       \<and> positioner W H Mw Mh m (PosTuple [px, py]) = [px, py]
       \<and> positioner W H Mw Mh m (PosStr ''LOWER_RIGHT'') = [W - Mw - m, H - Mh - m]
       \<and> (s \<notin> {''UPPER_LEFT'', ''UPPER_RIGHT'', ''LOWER_LEFT'', ''MIDDLE''} \<longrightarrow>
            positioner W H Mw Mh m (PosStr s) = [W - Mw - m, H - Mh - m])
       \<and> (\<exists>x y. positioner (int (width original)) (int (height original))
                    (int (width mark)) (int (height mark)) (margin c) (position c) = [x, y]
              \<and> add_watermark w c =
                  Some (Returned,
                    w\<lparr>opened := opened w @ [input_path c, watermark_path c],
                      files := (files w)(output_dir c \<mapsto>
                        Img (reread w (output_dir c)
                               (to_save (output_dir c)
                                  (alpha_composite original
                                     (paste (new_rgba (width original) (height original))
                                        mark (x, y))))))\<rparr>))"
proof -
  have table: "positioner W H Mw Mh m (PosStr ''UPPER_LEFT'') = [m, m]
       \<and> positioner W H Mw Mh m (PosStr ''UPPER_RIGHT'') = [W - Mw - m, m]
       \<and> positioner W H Mw Mh m (PosStr ''LOWER_LEFT'') = [m, H - Mh - m]
       \<and> positioner W H Mw Mh m (PosStr ''MIDDLE'') = [(W - Mw) div 2, (H - Mh) div 2]
       \<and> positioner W H Mw Mh m (PosTuple [px, py]) = [px, py]
       \<and> positioner W H Mw Mh m (PosStr ''LOWER_RIGHT'') = [W - Mw - m, H - Mh - m]
       \<and> (s \<notin> {''UPPER_LEFT'', ''UPPER_RIGHT'', ''LOWER_LEFT'', ''MIDDLE''} \<longrightarrow>
            positioner W H Mw Mh m (PosStr s) = [W - Mw - m, H - Mh - m])"
    using assms(1) by (simp add: positioner_def)
  obtain x y where xy: "positioner (int (width original)) (int (height original))
                    (int (width mark)) (int (height mark)) (margin c) (position c) = [x, y]"
    using positioner_pair[OF validate_position[OF assms(2)]] by blast
  have "mode c \<noteq> ''TILE''"
    using assms(3) by simp
  from add_watermark_single[OF assms(2) this assms(4-9) xy] xy table
  show ?thesis by blast
qed

text \<open>
  A mark taller than the canvas, anchored LOWER_LEFT: the offset is \<open>(0, -2)\<close> and the run
  saves the canvas covered by the bottom row of the mark.
\<close>

lemma lower_left_call_valid: "validate lower_left_call = None"
  by (simp add: validate_def lower_left_call_def fle_def endswith_def lower_def lower_char_def
        anchors_def)

lemma resize_tall: "resize nearest tall_mark (1, 3) = tall_mark"
  by (simp add: resize_def nearest_def tall_mark_def upt_conv_Cons)

lemma size_tall: "scaled_size lower_left_call dot_canvas tall_mark = Some (1, 3)"
  using scaled_size_valid(2)[where c = lower_left_call and p = 1 and mark = tall_mark
          and canvas = dot_canvas, OF lower_left_call_valid _ _ _ _ _ _ refl]
  by (simp add: lower_left_call_def tall_mark_def dot_canvas_def rd_1 rd_numeral)

lemma prepare_tall: "prepare_mark nearest lower_left_call dot_canvas tall_mark = Some tall_mark"
  using resize_tall
  by (simp add: prepare_mark_def size_tall rescale_def) (simp add: lower_left_call_def)

theorem single_mode_placement_witness:
  "positioner 1 1 1 3 0 (PosStr ''LOWER_LEFT'') = [0, - 2]
   \<and> add_watermark small_world lower_left_call =
        Some (Returned,
          small_world\<lparr>opened := [''in.png'', ''wm.png''],
            files := (files small_world)(''out.png'' \<mapsto>
              Img \<lparr>width = 1, height = 1, pixels = [(3, 3, 3, 255)]\<rparr>)\<rparr>)"
proof -
  have f: "files small_world (input_path lower_left_call) = Some (Img dot_canvas)"
    "files small_world (watermark_path lower_left_call) = Some (Img tall_mark)"
    "save_error small_world (output_dir lower_left_call) = None"
    by (simp_all add: small_world_def lower_left_call_def)
  have p: "prepare_mark (resample small_world) lower_left_call dot_canvas tall_mark
      = Some tall_mark"
    using prepare_tall by (simp add: small_world_def)
  have sz: "0 < width tall_mark" "0 < height tall_mark" "mode lower_left_call = ''SINGLE''"
    by (simp_all add: tall_mark_def lower_left_call_def)
  have out: "to_save ''out.png'' im = im" for im
    by (simp add: to_save_def endswith_def lower_def lower_char_def)
  have comp: "alpha_composite dot_canvas (paste (new_rgba 1 1) tall_mark (0, - 2))
      = \<lparr>width = 1, height = 1, pixels = [(3, 3, 3, 255)]\<rparr>"
    by (simp add: alpha_composite_def paste_def new_rgba_def tall_mark_def dot_canvas_def blend_def)
  from single_mode_placement[of 0 lower_left_call small_world dot_canvas tall_mark tall_mark
         1 1 1 3 0 0 "''LOWER_RIGHT''", OF _ lower_left_call_valid sz(3) f(1,2) sz(1,2) f(3) p]
  show ?thesis
    using comp
    by (simp add: lower_left_call_def small_world_def out positioner_def dot_canvas_def
          tall_mark_def)
qed

section \<open>Tiling with positive steps\<close>

lemma cells_0: "0 < s \<Longrightarrow> e \<le> 0 \<Longrightarrow> cells e s = 0"
  by (simp add: cells_def pos_imp_zdiv_nonneg_iff)

lemma cells_Suc: "0 < s \<Longrightarrow> 0 < e \<Longrightarrow> cells e s = Suc (cells (e - s) s)"
proof -
  assume s: "0 < s" and e: "0 < e"
  have "- (e - s) = s + (- e)" by simp
  then have a: "(- (e - s)) div s = (- e) div s + 1"
    using s by (simp only: div_add_self1)
  have "(- e) div s < 0"
    using s e by (simp add: neg_imp_zdiv_neg_iff pos_imp_zdiv_neg_iff)
  then show ?thesis
    unfolding cells_def a by simp
qed


lemma tile_row_run:
  assumes "0 < x_step"
  shows "tile_row stamp w x_step y r c x layer =
           Some (fold stamp
                   (map (\<lambda>k. (x + int k * x_step, y))
                      (filter (\<lambda>k. even (r + c + int k)) [0..<cells (w - x) x_step]))
                   layer)"
proof (induction "cells (w - x) x_step" arbitrary: x c layer)
  case 0
  then have "\<not> x < w"
    using cells_Suc[OF assms, of "w - x"] by auto
  then show ?case
    using 0 by (subst tile_row.simps) simp
next
  case (Suc n)
  then have lt: "x < w"
    using cells_0[OF assms, of "w - x"] by (cases "x < w") auto
  then have n: "n = cells (w - (x + x_step)) x_step"
    using cells_Suc[OF assms, of "w - x"] Suc(2) by (simp add: algebra_simps)
  have shift: "filter (\<lambda>k. even (r + c + int k)) [0..<Suc n]
      = (if even (r + c) then [0] else []) @ map Suc (filter (\<lambda>k. even (r + (c + 1) + int k)) [0..<n])"
    by (simp add: upt_conv_Cons map_Suc_upt[symmetric] filter_map comp_def del: upt_Suc)
  show ?case
    apply (subst tile_row.simps)
    apply (simp only: lt if_True Suc(1)[OF n])
    apply (simp only: Suc(2)[symmetric] shift n[symmetric])
    apply (simp add: comp_def algebra_simps even_iff_mod_2_eq_zero)
    done
qed


lemma tile_row_checker_row:
  assumes "0 < x_step"
  shows "tile_row stamp w x_step y r 0 0 layer = Some (fold stamp (checker_row w x_step r y) layer)"
  using tile_row_run[OF assms, of stamp w y r 0 0 layer] by (simp add: checker_row_def)

lemma tile_rows_run:
  assumes "0 < x_step" and "0 < y_step"
  shows "tile_rows stamp w h x_step y_step r y layer =
           Some (fold stamp
                   (concat (map (\<lambda>j. checker_row w x_step (r + int j) (y + int j * y_step))
                              [0..<cells (h - y) y_step]))
                   layer)"
proof (induction "cells (h - y) y_step" arbitrary: y r layer)
  case 0
  then have "\<not> y < h"
    using cells_Suc[OF assms(2), of "h - y"] by auto
  then show ?case
    using 0 by (subst tile_rows.simps) simp
next
  case (Suc n)
  then have lt: "y < h"
    using cells_0[OF assms(2), of "h - y"] by (cases "y < h") auto
  then have n: "n = cells (h - (y + y_step)) y_step"
    using cells_Suc[OF assms(2), of "h - y"] Suc(2) by (simp add: algebra_simps)
  have shift: "[0..<Suc n] = 0 # map Suc [0..<n]"
    by (simp add: upt_conv_Cons map_Suc_upt[symmetric] del: upt_Suc)
  show ?case
    apply (subst tile_rows.simps)
    apply (simp only: lt if_True tile_row_checker_row[OF assms(1)] Option.bind.simps Suc(1)[OF n])
    apply (simp only: Suc(2)[symmetric] shift n[symmetric])
    apply (simp add: comp_def algebra_simps)
    done
qed

lemma tile_rows_checkerboard:
  assumes "0 < x_step" and "0 < y_step"
  shows "tile_rows stamp w h x_step y_step 0 0 layer
           = Some (fold stamp (checkerboard w h x_step y_step) layer)"
  using tile_rows_run[OF assms, of stamp w h 0 0 layer] by (simp add: checkerboard_def)

lemma tile_trace_checkerboard:
  assumes "0 < x_step" and "0 < y_step"
  shows "tile_trace w h x_step y_step = Some (checkerboard w h x_step y_step)"
proof -
  have "fold (\<lambda>p acc. acc @ [p]) xs acc = acc @ xs" for xs acc :: "(int \<times> int) list"
    by (induction xs arbitrary: acc) simp_all
  then show ?thesis
    by (simp add: tile_trace_def tile_rows_checkerboard[OF assms])
qed


lemma paste_shape [simp]:
  "width (paste layer im box) = width layer"
  "height (paste layer im box) = height layer"
  "length (pixels (paste layer im box)) = length (pixels layer)"
  by (simp_all add: paste_def)


lemma fold_paste_shape [simp]:
  "width (fold (\<lambda>box layer. paste layer im box) boxes layer) = width layer"
  "height (fold (\<lambda>box layer. paste layer im box) boxes layer) = height layer"
  "length (pixels (fold (\<lambda>box layer. paste layer im box) boxes layer)) = length (pixels layer)"
  by (induction boxes arbitrary: layer) simp_all





lemma place_marks_tile:
  assumes "mode c = ''TILE''"
    and "0 < fst ns + tile_padding c" and "0 < snd ns + tile_padding c"
  shows "place_marks c original mark ns =
           Some (Inr (fold (\<lambda>box layer. paste layer mark box)
                        (checkerboard (int (width original)) (int (height original))
                           (fst ns + tile_padding c) (snd ns + tile_padding c))
                        (new_rgba (width original) (height original))))"
  using assms by (simp add: place_marks_def tile_steps_def tile_rows_checkerboard)




section \<open>Degenerate sizes in TILE mode\<close>

lemma tile_row_stuck:
  "tile_row stamp w x_step y r c x layer = Some res \<Longrightarrow> x_step = 0 \<Longrightarrow> x < w \<Longrightarrow> False"
proof (induction rule: tile_row.raw_induct[rotated, consumes 1])
  case (1 tile_row' stamp w x_step y row_index col_index x layer res')
  from 1(2,4) have "tile_row' stamp w x_step y row_index (col_index + 1) (x + x_step)
            (if (row_index + col_index) mod 2 = 0 then stamp (x, y) layer else layer) = Some res'"
    by simp
  from 1(1)[OF this] 1(3,4) show False by simp
qed

lemma tile_row_diverges: "x < w \<Longrightarrow> tile_row stamp w 0 y r c x layer = None"
  using tile_row_stuck[of stamp w 0 y r c x layer] by (cases "tile_row stamp w 0 y r c x layer") auto

lemma tile_rows_stuck:
  "tile_rows stamp w h x_step y_step r y layer = Some res \<Longrightarrow> y_step = 0 \<Longrightarrow> y < h \<Longrightarrow> False"
proof (induction rule: tile_rows.raw_induct[rotated, consumes 1])
  case (1 tile_rows' stamp w h x_step y_step row_index y layer res')
  from 1(2,4) obtain layer' where
    "tile_rows' stamp w h x_step y_step (row_index + 1) (y + y_step) layer' = Some res'"
    by (auto simp add: bind_eq_Some_conv)
  from 1(1)[OF this] 1(3,4) show False by simp
qed

lemma tile_rows_diverges_x: "0 < w \<Longrightarrow> y < h \<Longrightarrow> tile_rows stamp w h 0 y_step r y layer = None"
  by (subst tile_rows.simps) (simp add: tile_row_diverges)

lemma tile_rows_diverges_y: "y < h \<Longrightarrow> tile_rows stamp w h x_step 0 r y layer = None"
  using tile_rows_stuck[of stamp w h x_step 0 r y layer]
  by (cases "tile_rows stamp w h x_step 0 r y layer") auto

lemma degenerate_call_valid: "0 \<le> t \<Longrightarrow> validate (degenerate_call t) = None"
  by (simp add: validate_def degenerate_call_def double_tenth fle_def endswith_def lower_def
        lower_char_def anchors_def)

text \<open>
  In doubles: \<^verbatim>\<open>2 * 0.1\<close> is \<^verbatim>\<open>0.2\<close>, \<^verbatim>\<open>0.2 / 3\<close> is \<^verbatim>\<open>0.06666666666666667\<close>, three times
  that is \<^verbatim>\<open>0.2\<close> again, and \<^verbatim>\<open>int(0.2)\<close> is 0.
\<close>

lemma degenerate_size: "scaled_size (degenerate_call t) canvas2 mark3 = Some (0, 0)"
proof -
  have sf: "scale_factor ''LINEAR'' 2 2 3 3 (Finite (3602879701896397 / 36028797018963968))
      = Some (Finite (4803839602528529 / 72057594037927936))"
    using scale_factor_linear(1)[of "3602879701896397 / 36028797018963968" 2 3 2 3]
    by (simp add: rd_fifth rd_fifth_3)
  have ns: "new_size 3 3 (Finite (4803839602528529 / 72057594037927936)) = Some (0, 0)"
    using new_size_finite[of "4803839602528529 / 72057594037927936" 3 3]
    by (simp add: rd_3_fifteenth)
  show ?thesis
    by (simp add: scaled_size_def degenerate_call_def canvas2_def mark3_def double_tenth sf ns)
qed

lemma degenerate_mark: "prepare_mark nearest (degenerate_call t) canvas2 mark3 = Some mark3"
  by (simp add: prepare_mark_def degenerate_size rescale_def)
    (simp add: degenerate_call_def)

text \<open>
  C3.  The steps are \<open>new_size + tile_padding\<close>; for positive steps the tiling terminates
  (\<open>tile_rows_checkerboard\<close>, with at most \<open>cells H stepY * cells W stepX\<close> cells).  A step
  that is not positive does not give an empty tiling: on a canvas 2 x 2 with a mark 3 x 3,
  proportion 0.1 and padding 0, the new size rounds to (0, 0), the steps are (0, 0), the
  loop never advances and the call never returns.
\<close>

theorem zero_step_never_returns:
  "validate (degenerate_call 0) = None
   \<and> scaled_size (degenerate_call 0) canvas2 mark3 = Some (0, 0)
   \<and> tile_steps (0, 0) (tile_padding (degenerate_call 0)) = (0, 0)
   \<and> tile_trace 2 2 0 0 = None
   \<and> add_watermark degenerate_world (degenerate_call 0) = None"
proof -
  have "place_marks (degenerate_call 0) canvas2 mark3 (0, 0) = None"
    by (simp add: place_marks_def tile_steps_def degenerate_call_def canvas2_def
          tile_rows_diverges_x)
  then have "render nearest (degenerate_call 0) canvas2 mark3 = None"
    by (simp add: render_def degenerate_size degenerate_mark) (simp add: mark3_def)
  then have "try_block degenerate_world (degenerate_call 0) = None"
    by (simp add: try_block_def open_image_def degenerate_world_def degenerate_call_def)
  then show ?thesis
    by (simp add: add_watermark_def degenerate_call_valid degenerate_size tile_steps_def
          tile_trace_def tile_rows_diverges_x) (simp add: degenerate_call_def)
qed

text \<open>The call of the failing input, on its own.\<close>

theorem zero_step_never_returns_witness:
  "add_watermark degenerate_world (degenerate_call 0) = None"
  using zero_step_never_returns by blast


lemma upt_4: "[0..<4] = [0, 1, 2, 3]"
  by code_simp

lemma new_rgba_2_2:
  "new_rgba 2 2 = \<lparr>width = 2, height = 2,
                    pixels = [(0, 0, 0, 0), (0, 0, 0, 0), (0, 0, 0, 0), (0, 0, 0, 0)]\<rparr>"
proof -
  have "replicate 4 x = [x, x, x, x]" for x :: pixel
    by (simp add: numeral_eq_Suc)
  then show ?thesis by (simp add: new_rgba_def)
qed

lemma degenerate_run:
  "add_watermark degenerate_world (degenerate_call 1) =
        Some (Returned,
          degenerate_world\<lparr>opened := [''in.png'', ''wm.png''],
            files := (files degenerate_world)(''out.png'' \<mapsto>
              Img \<lparr>width = 2, height = 2,
                    pixels = [(10, 10, 10, 255), (20, 20, 20, 255),
                              (40, 40, 40, 255), (10, 10, 10, 255)]\<rparr>)\<rparr>)"
proof -
  have cb1: "checkerboard 2 2 1 1 = [(0, 0), (1, 1)]"
    by code_simp
  have p1: "paste (new_rgba 2 2) mark3 (0, 0)
      = \<lparr>width = 2, height = 2, pixels = [(10, 10, 10, 255), (20, 20, 20, 255),
                              (40, 40, 40, 255), (50, 50, 50, 255)]\<rparr>"
    by (simp add: new_rgba_2_2 paste_def mark3_def blend_def upt_4)
  have p2: "paste \<lparr>width = 2, height = 2, pixels = [(10, 10, 10, 255), (20, 20, 20, 255),
                              (40, 40, 40, 255), (50, 50, 50, 255)]\<rparr> mark3 (1, 1)
      = \<lparr>width = 2, height = 2, pixels = [(10, 10, 10, 255), (20, 20, 20, 255),
                              (40, 40, 40, 255), (10, 10, 10, 255)]\<rparr>"
    by (simp add: paste_def mark3_def blend_def upt_4)
  have "place_marks (degenerate_call 1) canvas2 mark3 (0, 0) =
      Some (Inr \<lparr>width = 2, height = 2, pixels = [(10, 10, 10, 255), (20, 20, 20, 255),
                              (40, 40, 40, 255), (10, 10, 10, 255)]\<rparr>)"
    using place_marks_tile[of "degenerate_call 1" "(0, 0)" canvas2 mark3]
    by (simp add: degenerate_call_def canvas2_def cb1 p1 p2)
  then have "render nearest (degenerate_call 1) canvas2 mark3 =
      Some (Inr (alpha_composite canvas2 \<lparr>width = 2, height = 2, pixels = [(10, 10, 10, 255),
               (20, 20, 20, 255), (40, 40, 40, 255), (10, 10, 10, 255)]\<rparr>))"
    by (simp add: render_def degenerate_size degenerate_mark) (simp add: mark3_def)
  moreover have "alpha_composite canvas2 \<lparr>width = 2, height = 2, pixels = [(10, 10, 10, 255),
               (20, 20, 20, 255), (40, 40, 40, 255), (10, 10, 10, 255)]\<rparr>
      = \<lparr>width = 2, height = 2, pixels = [(10, 10, 10, 255), (20, 20, 20, 255),
                              (40, 40, 40, 255), (10, 10, 10, 255)]\<rparr>"
    by (simp add: alpha_composite_def canvas2_def)
  ultimately have r: "render nearest (degenerate_call 1) canvas2 mark3 =
      Some (Inr \<lparr>width = 2, height = 2, pixels = [(10, 10, 10, 255), (20, 20, 20, 255),
                              (40, 40, 40, 255), (10, 10, 10, 255)]\<rparr>)"
    by simp
  have out: "to_save ''out.png'' im = im" for im
    by (simp add: to_save_def endswith_def lower_def lower_char_def)
  have fs: "files degenerate_world ''in.png'' = Some (Img canvas2)"
    "files degenerate_world ''wm.png'' = Some (Img mark3)"
    "save_error degenerate_world ''out.png'' = None" "resample degenerate_world = nearest"
    "reread degenerate_world = (\<lambda>path im. im)" "opened degenerate_world = []"
    by (simp_all add: degenerate_world_def)
  have c: "input_path (degenerate_call 1) = ''in.png''" "watermark_path (degenerate_call 1) = ''wm.png''"
    "output_dir (degenerate_call 1) = ''out.png''"
    by (simp_all add: degenerate_call_def)
  show ?thesis
    by (simp add: add_watermark_def degenerate_call_valid try_block_def open_image_def c fs r
          save_def out)
qed

text \<open>
  C6.  When the new size rounds to zero the resize is skipped and the mark keeps its size,
  but the tiling steps are still taken from the rounded size: on a canvas 2 x 2 with a
  mark 3 x 3, proportion 0.1 and padding 1 the steps are (1, 1) instead of (4, 4), and the
  mark is stamped at (0, 0) and (1, 1) instead of (0, 0) alone.
\<close>

theorem degenerate_size_tile_steps:
  "scaled_size (degenerate_call 1) canvas2 mark3 = Some (0, 0)
   \<and> prepare_mark nearest (degenerate_call 1) canvas2 mark3 = Some mark3
   \<and> map_option (\<lambda>ns. tile_steps ns (tile_padding (degenerate_call 1)))
        (scaled_size (degenerate_call 1) canvas2 mark3) = Some (1, 1)
   \<and> tile_trace 2 2 1 1 = Some [(0, 0), (1, 1)]
   \<and> tile_trace 2 2 (int (width mark3) + 1) (int (height mark3) + 1) = Some [(0, 0)]
   \<and> add_watermark degenerate_world (degenerate_call 1) =
        Some (Returned,
          degenerate_world\<lparr>opened := [''in.png'', ''wm.png''],
            files := (files degenerate_world)(''out.png'' \<mapsto>
              Img \<lparr>width = 2, height = 2,
                    pixels = [(10, 10, 10, 255), (20, 20, 20, 255),
                              (40, 40, 40, 255), (10, 10, 10, 255)]\<rparr>)\<rparr>)"
proof -
  have cb1: "checkerboard 2 2 1 1 = [(0, 0), (1, 1)]"
    by code_simp
  have cb4: "checkerboard 2 2 4 4 = [(0, 0)]"
    by code_simp
  have t1: "tile_trace 2 2 1 1 = Some [(0, 0), (1, 1)]"
    using tile_trace_checkerboard[of 1 1 2 2] by (simp add: cb1)
  have t4: "tile_trace 2 2 (int (width mark3) + 1) (int (height mark3) + 1) = Some [(0, 0)]"
    using tile_trace_checkerboard[of 4 4 2 2] by (simp add: cb4 mark3_def)
  have steps: "map_option (\<lambda>ns. tile_steps ns (tile_padding (degenerate_call 1)))
      (scaled_size (degenerate_call 1) canvas2 mark3) = Some (1, 1)"
    by (simp add: degenerate_size tile_steps_def) (simp add: degenerate_call_def)
  show ?thesis
    using degenerate_size degenerate_mark steps t1 t4 degenerate_run by blast
qed

text \<open>The steps and the stamps of the failing input, on their own.\<close>

theorem degenerate_size_tile_steps_witness:
  "map_option (\<lambda>ns. tile_steps ns (tile_padding (degenerate_call 1)))
     (scaled_size (degenerate_call 1) canvas2 mark3) = Some (1, 1)
   \<and> tile_trace 2 2 1 1 = Some [(0, 0), (1, 1)]"
  using degenerate_size_tile_steps by blast

section \<open>Compositing an opaque mark\<close>

lemma paste_pixel_opaque: "alpha_of s = 255 \<Longrightarrow> paste_pixel d s = s"
  by (cases d; cases s) (simp add: blend_def)

lemma over_opaque: "alpha_of l = 255 \<Longrightarrow> over c l = l"
  by (cases c; cases l) simp

lemma paste_opaque_full:
  assumes "well_formed mark" and "\<forall>px \<in> set (pixels mark). alpha_of px = 255"
  shows "pixels (paste (new_rgba (width mark) (height mark)) mark (0, 0)) = pixels mark"
proof (rule nth_equalityI)
  show len: "length (pixels (paste (new_rgba (width mark) (height mark)) mark (0, 0)))
      = length (pixels mark)"
    using assms(1) by (simp add: paste_def new_rgba_def well_formed_def)
  fix k assume "k < length (pixels (paste (new_rgba (width mark) (height mark)) mark (0, 0)))"
  then have k: "k < width mark * height mark"
    using len assms(1) by (simp add: well_formed_def)
  then have w: "0 < width mark"
    by (cases "width mark") simp_all
  have inside: "k mod width mark < width mark" "k div width mark < height mark"
    using k w by (simp_all add: less_mult_imp_div_less mult.commute)
  have idx: "k div width mark * width mark + k mod width mark = k"
    by simp
  have "pixels mark ! k \<in> set (pixels mark)"
    using k assms(1) by (simp add: well_formed_def)
  then have op: "alpha_of (pixels mark ! k) = 255"
    using assms(2) by blast
  show "pixels (paste (new_rgba (width mark) (height mark)) mark (0, 0)) ! k = pixels mark ! k"
    using k inside by (simp add: paste_def new_rgba_def Let_def idx paste_pixel_opaque[OF op])
qed

text \<open>
  C9.  Compositing onto any canvas a layer on which a fully opaque mark of the canvas's
  size has been pasted at offset (0, 0) gives the mark, pixel for pixel, with stamping and
  compositing following the per-channel alpha rules of section 4.5 of the specification.
\<close>

theorem opaque_full_mark_covers_canvas:
  assumes "well_formed canvas" and "well_formed mark"
    and "width mark = width canvas" and "height mark = height canvas"
    and "\<forall>px \<in> set (pixels mark). alpha_of px = 255"
  shows "alpha_composite canvas (paste (new_rgba (width canvas) (height canvas)) mark (0, 0)) = mark"
proof -
  have layer: "pixels (paste (new_rgba (width canvas) (height canvas)) mark (0, 0)) = pixels mark"
    using paste_opaque_full[OF assms(2,5)] assms(3,4) by simp
  have len: "length (pixels canvas) = length (pixels mark)"
    using assms(1-4) by (simp add: well_formed_def)
  have "map2 over (pixels canvas) (pixels mark) = pixels mark"
  proof (rule nth_equalityI)
    show "length (map2 over (pixels canvas) (pixels mark)) = length (pixels mark)"
      using len by simp
    fix k assume "k < length (map2 over (pixels canvas) (pixels mark))"
    then have k: "k < length (pixels mark)" "k < length (pixels canvas)"
      using len by simp_all
    then have "alpha_of (pixels mark ! k) = 255"
      using assms(5) by simp
    then show "map2 over (pixels canvas) (pixels mark) ! k = pixels mark ! k"
      using k by (simp add: over_opaque)
  qed
  then show ?thesis
    using assms(3,4) by (simp add: alpha_composite_def layer)
qed


lemma cover_call_valid: "validate cover_call = None"
  by (simp add: validate_def cover_call_def fle_def endswith_def lower_def lower_char_def)

lemma cover_mark: "prepare_mark nearest cover_call canvas2 opaque2 = Some opaque2"
proof -
  have "scaled_size cover_call canvas2 opaque2 = Some (2, 2)"
    using scaled_size_valid(2)[where c = cover_call and p = 1 and mark = opaque2
            and canvas = canvas2, OF cover_call_valid _ _ _ _ _ _ refl]
    by (simp add: cover_call_def opaque2_def canvas2_def rd_1 rd_numeral)
  moreover have "resize nearest opaque2 (2, 2) = opaque2"
    by (simp add: resize_def nearest_def opaque2_def upt_4)
  ultimately show ?thesis
    by (simp add: prepare_mark_def rescale_def) (simp add: cover_call_def)
qed

theorem opaque_full_mark_covers_canvas_witness:
  "alpha_composite canvas2 (paste (new_rgba 2 2) opaque2 (0, 0)) = opaque2
   \<and> add_watermark cover_world cover_call =
        Some (Returned,
          cover_world\<lparr>opened := [''in.png'', ''wm.png''],
            files := (files cover_world)(''out.png'' \<mapsto> Img opaque2)\<rparr>)"
proof -
  have wf: "well_formed canvas2" "well_formed opaque2"
    by (simp_all add: well_formed_def canvas2_def opaque2_def)
  have sz: "width opaque2 = width canvas2" "height opaque2 = height canvas2"
    "width canvas2 = 2" "height canvas2 = 2" "0 < width opaque2" "0 < height opaque2"
    by (simp_all add: canvas2_def opaque2_def)
  have op: "\<forall>px \<in> set (pixels opaque2). alpha_of px = 255"
    by (simp add: opaque2_def)
  have comp: "alpha_composite canvas2 (paste (new_rgba 2 2) opaque2 (0, 0)) = opaque2"
    using opaque_full_mark_covers_canvas[OF wf sz(1,2) op] by (simp add: sz)
  have out: "to_save ''out.png'' im = im" for im
    by (simp add: to_save_def endswith_def lower_def lower_char_def)
  have pos: "positioner (int (width canvas2)) (int (height canvas2)) (int (width opaque2))
      (int (height opaque2)) (margin cover_call) (position cover_call) = [0, 0]"
    by (simp add: positioner_def cover_call_def)
  have m: "mode cover_call \<noteq> ''TILE''"
    by (simp add: cover_call_def)
  have f: "files cover_world (input_path cover_call) = Some (Img canvas2)"
    "files cover_world (watermark_path cover_call) = Some (Img opaque2)"
    by (simp_all add: cover_call_def cover_world_def)
  have se: "save_error cover_world (output_dir cover_call) = None"
    by (simp add: cover_world_def)
  have pm: "prepare_mark (resample cover_world) cover_call canvas2 opaque2 = Some opaque2"
    using cover_mark by (simp add: cover_world_def)
  have "add_watermark cover_world cover_call =
        Some (Returned,
          cover_world\<lparr>opened := opened cover_world @ [input_path cover_call, watermark_path cover_call],
            files := (files cover_world)(output_dir cover_call \<mapsto>
              Img (reread cover_world (output_dir cover_call)
                     (to_save (output_dir cover_call)
                        (alpha_composite canvas2
                           (paste (new_rgba (width canvas2) (height canvas2)) opaque2 (0, 0))))))\<rparr>)"
    by (rule add_watermark_single[OF cover_call_valid m f sz(5,6) se pm pos])
  then show ?thesis
    using comp by (simp add: sz cover_call_def cover_world_def out)
qed

section \<open>Validation comes first\<close>










section \<open>Margin and position in TILE mode\<close>

lemma render_tile_ignores:
  assumes "mode c = ''TILE''"
  shows "render rs (c\<lparr>margin := m, position := p\<rparr>) original watermark_img
           = render rs c original watermark_img"
proof -
  have a: "scaled_size (c\<lparr>margin := m, position := p\<rparr>) original watermark_img
      = scaled_size c original watermark_img"
    by (simp add: scaled_size_def)
  have b: "prepare_mark rs (c\<lparr>margin := m, position := p\<rparr>) original watermark_img
      = prepare_mark rs c original watermark_img"
    by (simp add: prepare_mark_def scaled_size_def)
  have t: "place_marks (c\<lparr>margin := m, position := p\<rparr>) original mark ns
      = place_marks c original mark ns" for mark ns
    using assms by (simp add: place_marks_def)
  show ?thesis
    by (simp only: render_def a b t)
qed

lemma try_block_tile_ignores:
  "mode c = ''TILE'' \<Longrightarrow> try_block w (c\<lparr>margin := m, position := p\<rparr>) = try_block w c"
  by (simp add: try_block_def render_tile_ignores split: prod.splits sum.splits option.splits)

text \<open>
  C10.  In TILE mode two valid calls that differ only in margin and position behave the
  same: the same outcome and the same files, hence the same output image.
\<close>

theorem tile_mode_ignores_margin_and_position:
  assumes "mode c = ''TILE''"
    and "validate c = None" and "validate (c\<lparr>margin := m, position := p\<rparr>) = None"
  shows "add_watermark w (c\<lparr>margin := m, position := p\<rparr>) = add_watermark w c"
  using assms by (simp add: add_watermark_def try_block_tile_ignores)

theorem tile_mode_ignores_margin_and_position_witness:
  "add_watermark degenerate_world ((degenerate_call 1)\<lparr>margin := 0, position := PosTuple [7, 9]\<rparr>)
     = add_watermark degenerate_world (degenerate_call 1)
   \<and> add_watermark degenerate_world (degenerate_call 1) =
        Some (Returned,
          degenerate_world\<lparr>opened := [''in.png'', ''wm.png''],
            files := (files degenerate_world)(''out.png'' \<mapsto>
              Img \<lparr>width = 2, height = 2,
                    pixels = [(10, 10, 10, 255), (20, 20, 20, 255),
                              (40, 40, 40, 255), (10, 10, 10, 255)]\<rparr>)\<rparr>)"
proof -
  have m: "mode (degenerate_call 1) = ''TILE''"
    by (simp add: degenerate_call_def)
  have v: "validate (degenerate_call 1) = None"
    by (simp add: degenerate_call_valid)
  have v': "validate ((degenerate_call 1)\<lparr>margin := 0, position := PosTuple [7, 9]\<rparr>) = None"
    by (simp add: validate_def degenerate_call_def double_tenth fle_def endswith_def lower_def
          lower_char_def)
  show ?thesis
    using tile_mode_ignores_margin_and_position[OF m v v', of degenerate_world] degenerate_run
    by (simp only: simp_thms)
qed

section \<open>Batch mode\<close>

lemma open_image_fails:
  assumes "\<forall>im. files w path \<noteq> Some (Img im)"
  shows "\<exists>e. open_image w path = (Inl e, w\<lparr>opened := opened w @ [path]\<rparr>)"
proof (cases "files w path")
  case None
  then show ?thesis by (simp add: open_image_def Let_def)
next
  case (Some content)
  with assms have "content = Undecodable" by (cases content) simp_all
  with Some show ?thesis by (simp add: open_image_def Let_def)
qed

lemma handlers_error:
  "\<exists>msg \<in> {ErrorOpeningImages, UnexpectedError}. handlers (Inl e, w) = (Returned, secho msg w)"
  by (cases e) simp_all

lemma add_watermark_input_undecodable:
  assumes "validate c = None" and "\<forall>im. files w (input_path c) \<noteq> Some (Img im)"
  shows "\<exists>msg \<in> {ErrorOpeningImages, UnexpectedError}.
           add_watermark w c =
             Some (Returned, w\<lparr>opened := opened w @ [input_path c], console := console w @ [msg]\<rparr>)"
proof -
  obtain e where "open_image w (input_path c) = (Inl e, w\<lparr>opened := opened w @ [input_path c]\<rparr>)"
    using open_image_fails[OF assms(2)] by blast
  then have "add_watermark w c = Some (handlers (Inl e, w\<lparr>opened := opened w @ [input_path c]\<rparr>))"
    using assms(1) by (simp add: add_watermark_def try_block_def)
  then show ?thesis
    using handlers_error[of e "w\<lparr>opened := opened w @ [input_path c]\<rparr>"]
    by (auto simp add: secho_def)
qed

lemma run_watermarker_ends:
  assumes "run_watermarker w a = Some (Returned, w')"
  shows "\<exists>w''. w' = secho ProcessFinished w''"
proof -
  have fin: "\<exists>w''. w' = secho ProcessFinished w''" if "map_option finish r = Some (Returned, w')" for r
  proof -
    from that obtain res where "r = Some res" "finish res = (Returned, w')"
      by (cases r) auto
    then show ?thesis
      by (cases res rule: finish.cases) auto
  qed
  show ?thesis
    using assms fin
    by (auto simp add: run_watermarker_def Let_def split: if_splits sum.splits option.splits)
qed


lemma batch_calls:
  "call_for batch_cli ''pics/a.png'' =
     \<lparr>input_path = ''pics/a.png'', watermark_path = ''wm.png'',
      output_dir = ''out/a_watermarked.png'', margin = 0, position = PosStr ''LOWER_RIGHT'',
      opacity = Finite 1, proportion = Finite 1, type_of_rescaling = ''LINEAR'',
      mode = ''SINGLE'', tile_padding = 0\<rparr>"
  "call_for batch_cli ''pics/b.png'' =
     \<lparr>input_path = ''pics/b.png'', watermark_path = ''wm.png'',
      output_dir = ''out/b_watermarked.png'', margin = 0, position = PosStr ''LOWER_RIGHT'',
      opacity = Finite 1, proportion = Finite 1, type_of_rescaling = ''LINEAR'',
      mode = ''SINGLE'', tile_padding = 0\<rparr>"
  by (simp_all add: call_for_def batch_cli_def joinpath_def stem_of_def suffix_of_def name_of_def)

lemma batch_calls_valid:
  "validate (call_for batch_cli ''pics/a.png'') = None"
  "validate (call_for batch_cli ''pics/b.png'') = None"
  by (simp_all add: batch_calls validate_def fle_def endswith_def lower_def lower_char_def
        anchors_def)

lemma batch_files_listed:
  "filter (\<lambda>f. lower (suffix_of f) \<in> set valid_extensions) [''pics/b.png'', ''pics/a.png'']
     = [''pics/b.png'', ''pics/a.png'']"
  by (simp add: suffix_of_def name_of_def lower_def lower_char_def valid_extensions_def)


lemma batch_good_call:
  assumes "c = \<lparr>input_path = inp, watermark_path = ''wm.png'', output_dir = out, margin = 0,
                position = PosStr ''LOWER_RIGHT'', opacity = Finite 1, proportion = Finite 1,
                type_of_rescaling = ''LINEAR'', mode = ''SINGLE'', tile_padding = 0\<rparr>"
    and "validate c = None"
    and "\<not> endswith (lower out) [''.jpg'', ''.jpeg'']"
    and "files w inp = Some (Img dot_canvas)" and "files w ''wm.png'' = Some (Img dot_mark)"
    and "save_error w out = None" and "resample w = nearest" and "reread w = (\<lambda>path im. im)"
  shows "add_watermark w c =
           Some (Returned, w\<lparr>opened := opened w @ [inp, ''wm.png''],
                             files := (files w)(out \<mapsto> Img dot_mark)\<rparr>)"
proof -
  have size: "scaled_size c dot_canvas dot_mark = Some (1, 1)"
    using scaled_size_valid(2)[where c = c and p = 1 and mark = dot_mark
            and canvas = dot_canvas, OF assms(2) _ _ _ _ _ _ refl]
    by (simp add: assms(1) dot_canvas_def dot_mark_def rd_1)
  have "resize nearest dot_mark (1, 1) = dot_mark"
    by (simp add: resize_def nearest_def dot_mark_def)
  then have mark: "prepare_mark (resample w) c dot_canvas dot_mark = Some dot_mark"
    using size by (simp add: prepare_mark_def rescale_def assms(1,7))
  have pos: "positioner (int (width dot_canvas)) (int (height dot_canvas))
      (int (width dot_mark)) (int (height dot_mark)) (margin c) (position c) = [0, 0]"
    by (simp add: positioner_def assms(1) dot_canvas_def dot_mark_def)
  have comp: "alpha_composite dot_canvas
      (paste (new_rgba (width dot_canvas) (height dot_canvas)) dot_mark (0, 0)) = dot_mark"
    by (simp add: alpha_composite_def paste_def new_rgba_def dot_canvas_def dot_mark_def blend_def)
  have "add_watermark w c =
      Some (Returned, w\<lparr>opened := opened w @ [input_path c, watermark_path c],
        files := (files w)(output_dir c \<mapsto>
          Img (reread w (output_dir c) (to_save (output_dir c)
            (alpha_composite dot_canvas
               (paste (new_rgba (width dot_canvas) (height dot_canvas)) dot_mark (0, 0))))))\<rparr>)"
    by (rule add_watermark_single[OF assms(2) _ _ _ _ _ _ mark pos])
      (simp_all add: assms dot_mark_def)
  then show ?thesis
    using assms(3) by (simp add: comp assms(1,8) to_save_def)
qed


lemma batch_png: "\<not> endswith (lower ''out/a_watermarked.png'') [''.jpg'', ''.jpeg'']"
  "\<not> endswith (lower ''out/b_watermarked.png'') [''.jpg'', ''.jpeg'']"
  by (simp_all add: endswith_def lower_def lower_char_def)

lemma batch_start:
  assumes "w \<in> {clean_batch, corrupt_batch}"
  shows "run_watermarker w batch_cli =
           map_option finish
             (process_files
                (w\<lparr>dirs := (dirs w)(''out'' \<mapsto> []),
                   console := [OutputDirectory ''out'', ProcessingDirectory ''pics'']\<rparr>)
                batch_cli [''pics/b.png'', ''pics/a.png''])"
proof -
  have w: "files w ''wm.png'' = Some (Img dot_mark)" "files w ''out'' = None" "dirs w ''out'' = None"
    "dirs w ''pics'' = Some [''pics/b.png'', ''pics/a.png'']" "console w = []"
    using assms by (auto simp add: clean_batch_def corrupt_batch_def)
  have a: "cli_watermark_path batch_cli = ''wm.png''" "cli_output_dir batch_cli = ''out''"
    "cli_input_path batch_cli = ''pics''"
    by (simp_all add: batch_cli_def)
  have ext: "lower (suffix_of ''pics/a.png'') \<in> set valid_extensions"
    "lower (suffix_of ''pics/b.png'') \<in> set valid_extensions"
    by (simp_all add: suffix_of_def name_of_def lower_def lower_char_def valid_extensions_def)
  show ?thesis
    by (simp add: run_watermarker_def makedirs_def secho_def w a ext)
qed

lemma corrupt_batch_run:
  "run_watermarker corrupt_batch batch_cli =
     Some (Returned,
       corrupt_batch\<lparr>dirs := (dirs corrupt_batch)(''out'' \<mapsto> []),
         console := [OutputDirectory ''out'', ProcessingDirectory ''pics'', UnexpectedError,
                     ProcessFinished],
         opened := [''pics/b.png'', ''pics/a.png'', ''wm.png''],
         files := (files corrupt_batch)(''out/a_watermarked.png'' \<mapsto> Img dot_mark)\<rparr>)"
proof -
  let ?w2 = "corrupt_batch\<lparr>dirs := (dirs corrupt_batch)(''out'' \<mapsto> []),
                   console := [OutputDirectory ''out'', ProcessingDirectory ''pics'']\<rparr>"
  let ?w3 = "?w2\<lparr>opened := [''pics/b.png''],
                  console := [OutputDirectory ''out'', ProcessingDirectory ''pics'', UnexpectedError]\<rparr>"
  let ?w4 = "?w3\<lparr>opened := opened ?w3 @ [''pics/a.png'', ''wm.png''],
                  files := (files ?w3)(''out/a_watermarked.png'' \<mapsto> Img dot_mark)\<rparr>"
  have b: "add_watermark ?w2 (call_for batch_cli ''pics/b.png'') = Some (Returned, ?w3)"
    using batch_calls_valid(2)[unfolded batch_calls]
    by (simp add: add_watermark_def try_block_def open_image_def secho_def batch_calls
          corrupt_batch_def clean_batch_def)
  have a: "add_watermark ?w3 (call_for batch_cli ''pics/a.png'') = Some (Returned, ?w4)"
    by (rule batch_good_call[OF batch_calls(1) batch_calls_valid(1) batch_png(1)])
      (simp_all add: corrupt_batch_def clean_batch_def)
  have start: "run_watermarker corrupt_batch batch_cli =
      map_option finish (process_files ?w2 batch_cli [''pics/b.png'', ''pics/a.png''])"
    by (rule batch_start) simp
  have pf: "process_files ?w2 batch_cli [''pics/b.png'', ''pics/a.png''] = Some (Returned, ?w4)"
    apply (subst process_files.simps)
    apply (subst b)
    apply (simp only: option.case prod.case outcome.case)
    apply (subst process_files.simps)
    apply (subst a)
    apply (simp only: option.case prod.case outcome.case process_files.simps)
    done
  have "run_watermarker corrupt_batch batch_cli = Some (Returned, secho ProcessFinished ?w4)"
    by (simp only: start pf option.map finish.simps)
  then show ?thesis
    by (simp add: secho_def)
qed


lemma clean_batch_run:
  "run_watermarker clean_batch batch_cli =
     Some (Returned,
       clean_batch\<lparr>dirs := (dirs clean_batch)(''out'' \<mapsto> []),
         console := [OutputDirectory ''out'', ProcessingDirectory ''pics'', ProcessFinished],
         opened := [''pics/b.png'', ''wm.png'', ''pics/a.png'', ''wm.png''],
         files := (files clean_batch)(''out/b_watermarked.png'' \<mapsto> Img dot_mark,
                                      ''out/a_watermarked.png'' \<mapsto> Img dot_mark)\<rparr>)"
proof -
  let ?w2 = "clean_batch\<lparr>dirs := (dirs clean_batch)(''out'' \<mapsto> []),
                   console := [OutputDirectory ''out'', ProcessingDirectory ''pics'']\<rparr>"
  let ?w3 = "?w2\<lparr>opened := opened ?w2 @ [''pics/b.png'', ''wm.png''],
                  files := (files ?w2)(''out/b_watermarked.png'' \<mapsto> Img dot_mark)\<rparr>"
  let ?w4 = "?w3\<lparr>opened := opened ?w3 @ [''pics/a.png'', ''wm.png''],
                  files := (files ?w3)(''out/a_watermarked.png'' \<mapsto> Img dot_mark)\<rparr>"
  have b: "add_watermark ?w2 (call_for batch_cli ''pics/b.png'') = Some (Returned, ?w3)"
    by (rule batch_good_call[OF batch_calls(2) batch_calls_valid(2) batch_png(2)])
      (simp_all add: clean_batch_def)
  have a: "add_watermark ?w3 (call_for batch_cli ''pics/a.png'') = Some (Returned, ?w4)"
    by (rule batch_good_call[OF batch_calls(1) batch_calls_valid(1) batch_png(1)])
      (simp_all add: clean_batch_def)
  have start: "run_watermarker clean_batch batch_cli =
      map_option finish (process_files ?w2 batch_cli [''pics/b.png'', ''pics/a.png''])"
    by (rule batch_start) simp
  have pf: "process_files ?w2 batch_cli [''pics/b.png'', ''pics/a.png''] = Some (Returned, ?w4)"
    apply (subst process_files.simps)
    apply (subst b)
    apply (simp only: option.case prod.case outcome.case)
    apply (subst process_files.simps)
    apply (subst a)
    apply (simp only: option.case prod.case outcome.case process_files.simps)
    done
  have "run_watermarker clean_batch batch_cli = Some (Returned, secho ProcessFinished ?w4)"
    by (simp only: start pf option.map finish.simps)
  then show ?thesis
    by (simp add: secho_def clean_batch_def)
qed

text \<open>
  C8, as amended.  In batch (directory) mode an input file that cannot be decoded (missing,
  a directory or corrupt) does not stop the remaining files: \<^verbatim>\<open>add_watermark\<close> prints one
  error message, writes nothing and returns, and the loop goes on with the rest.  Whenever
  the command returns, the last thing printed is the fixed message "Process successfully
  finished!"; no count of successes and failures is reported.
\<close>

theorem batch_survives_decode_error:
  assumes "validate (call_for a image_file) = None"
    and "\<forall>im. files w image_file \<noteq> Some (Img im)"
  shows "(\<exists>msg \<in> {ErrorOpeningImages, UnexpectedError}.
            add_watermark w (call_for a image_file) =
              Some (Returned, w\<lparr>opened := opened w @ [image_file], console := console w @ [msg]\<rparr>)
          \<and> process_files w a (image_file # rest) =
              process_files (w\<lparr>opened := opened w @ [image_file], console := console w @ [msg]\<rparr>)
                a rest)
       \<and> (\<forall>w0 w'. run_watermarker w0 a = Some (Returned, w') \<longrightarrow>
             (\<exists>w''. w' = secho ProcessFinished w''))"
proof -
  have inp: "input_path (call_for a image_file) = image_file"
    by (simp add: call_for_def)
  obtain msg where msg: "msg \<in> {ErrorOpeningImages, UnexpectedError}"
    and one: "add_watermark w (call_for a image_file) =
      Some (Returned, w\<lparr>opened := opened w @ [image_file], console := console w @ [msg]\<rparr>)"
    using add_watermark_input_undecodable[OF assms(1)] assms(2) unfolding inp by blast
  have "process_files w a (image_file # rest) =
      process_files (w\<lparr>opened := opened w @ [image_file], console := console w @ [msg]\<rparr>) a rest"
    by (simp add: one)
  then show ?thesis
    using msg one run_watermarker_ends by blast
qed

theorem batch_survives_decode_error_witness:
  "run_watermarker corrupt_batch batch_cli =
     Some (Returned,
       corrupt_batch\<lparr>dirs := (dirs corrupt_batch)(''out'' \<mapsto> []),
         console := [OutputDirectory ''out'', ProcessingDirectory ''pics'', UnexpectedError,
                     ProcessFinished],
         opened := [''pics/b.png'', ''pics/a.png'', ''wm.png''],
         files := (files corrupt_batch)(''out/a_watermarked.png'' \<mapsto> Img dot_mark)\<rparr>)
   \<and> (\<exists>msg \<in> {ErrorOpeningImages, UnexpectedError}.
         process_files corrupt_batch batch_cli [''pics/b.png'', ''pics/a.png''] =
           process_files
             (corrupt_batch\<lparr>opened := [''pics/b.png''], console := [msg]\<rparr>)
             batch_cli [''pics/a.png''])"
proof -
  have und: "\<forall>im. files corrupt_batch ''pics/b.png'' \<noteq> Some (Img im)"
    by (simp add: corrupt_batch_def)
  have e: "opened corrupt_batch = []" "console corrupt_batch = []"
    by (simp_all add: corrupt_batch_def clean_batch_def)
  show ?thesis
    using batch_survives_decode_error[OF batch_calls_valid(2) und, of "[''pics/a.png'']"]
      corrupt_batch_run
    by (simp only: e append_Nil) blast
qed

text \<open>
  C8 as stated fails: with one corrupt file of two, and with none, the command ends with the
  same message, although only the second run wrote the output of \<^verbatim>\<open>b.png\<close>.
\<close>

theorem final_report_carries_no_tally:
  "final_message (run_watermarker corrupt_batch batch_cli) = Some ProcessFinished
   \<and> final_message (run_watermarker clean_batch batch_cli) = Some ProcessFinished
   \<and> \<not> written (run_watermarker corrupt_batch batch_cli) ''out/b_watermarked.png''
   \<and> written (run_watermarker clean_batch batch_cli) ''out/b_watermarked.png''"
  by (simp add: corrupt_batch_run clean_batch_run final_message_def written_def)
    (simp add: corrupt_batch_def clean_batch_def)

end
